theory Spec2Isabelle
  imports Main
begin

text \<open>
  A model of \<^verbatim>\<open>glance/registry/db/sqlalchemy/models.py\<close>: the class \<^verbatim>\<open>ModelBase\<close>
  with its query helpers, \<^verbatim>\<open>str_id\<close>, \<^verbatim>\<open>save\<close>, \<^verbatim>\<open>delete\<close> and \<^verbatim>\<open>update\<close>, and the
  two mapped classes \<^verbatim>\<open>Image\<close> and \<^verbatim>\<open>ImageProperty\<close>. Objects are records, a session is
  the state of the two tables, a method that changes something returns what it leaves
  behind, and an exception is a value. What the source hands to SQLAlchemy and to the
  database (\<^verbatim>\<open>filter_by\<close>, \<^verbatim>\<open>one\<close>, \<^verbatim>\<open>count\<close>, the flush of one object, column defaults,
  validators, table constraints) is written out as the functions the source relies on. A
  flush writes the one object that \<^verbatim>\<open>save\<close> adds; the \<^verbatim>\<open>image\<close> relationship and the
  iteration helpers of \<^verbatim>\<open>ModelBase\<close> are not part of the model.
\<close>

section \<open>Python values used by the models\<close>

text \<open>
  A reading of \<^verbatim>\<open>datetime.datetime.utcnow()\<close> is an integer (microseconds on the
  clock). Every call of the source that reads the clock takes its reading as an argument,
  so nothing is assumed about two readings being different or increasing.
\<close>

type_synonym datetime = int

text \<open>
  The exceptions of the program: \<^verbatim>\<open>exception.NotFound\<close> and \<^verbatim>\<open>exception.Invalid\<close>
  with their message, the \<^verbatim>\<open>ValueError\<close> of \<^verbatim>\<open>int()\<close>, and the errors of the
  SQLAlchemy session: \<^verbatim>\<open>MultipleResultsFound\<close> and \<^verbatim>\<open>NoResultFound\<close> of
  \<^verbatim>\<open>Query.one()\<close>, and the \<^verbatim>\<open>IntegrityError\<close> and stale-row error of a flush.
\<close>

datatype error =
    NotFound string
  | Invalid string
  | ValueError
  | MultipleResultsFound
  | NoResultFound
  | IntegrityError
  | StaleDataError

subsection \<open>\<^verbatim>\<open>str\<close> of an integer and \<^verbatim>\<open>int\<close> of a string\<close>

definition digit_char :: "nat \<Rightarrow> char" where
  "digit_char d = ''0123456789'' ! d"

fun digits :: "nat \<Rightarrow> string" where
  "digits n = (if n < 10 then [digit_char n] else digits (n div 10) @ [digit_char (n mod 10)])"

declare digits.simps [simp del]

text \<open>\<^verbatim>\<open>"%s" % i\<close> for an integer \<open>i\<close>.\<close>

definition str_int :: "int \<Rightarrow> string" where
  "str_int i = (if i < 0 then CHR ''-'' # digits (nat (- i)) else digits (nat i))"

text \<open>\<^verbatim>\<open>"%s" % v\<close> for a value that is an integer or \<^verbatim>\<open>None\<close>, and for a string or \<^verbatim>\<open>None\<close>.\<close>

definition str_int_opt :: "int option \<Rightarrow> string" where
  "str_int_opt v = (case v of None \<Rightarrow> ''None'' | Some i \<Rightarrow> str_int i)"

definition str_opt :: "string option \<Rightarrow> string" where
  "str_opt v = (case v of None \<Rightarrow> ''None'' | Some s \<Rightarrow> s)"

definition digit_val :: "char \<Rightarrow> nat option" where
  "digit_val c = (if c \<in> set ''0123456789'' then Some (of_char c - 48) else None)"

text \<open>The characters that \<^verbatim>\<open>int()\<close> strips at both ends: space, \<^verbatim>\<open>\t \n \v \f \r\<close>.\<close>

definition is_space :: "char \<Rightarrow> bool" where
  "is_space c = (c \<in> set [CHR '' '', CHR 0x09, CHR 0x0A, CHR 0x0B, CHR 0x0C, CHR 0x0D])"

definition strip :: "string \<Rightarrow> string" where
  "strip s = rev (dropWhile is_space (rev (dropWhile is_space s)))"

fun parse_digits :: "string \<Rightarrow> nat \<Rightarrow> nat option" where
  "parse_digits [] acc = Some acc"
| "parse_digits (c # cs) acc =
     (case digit_val c of None \<Rightarrow> None | Some d \<Rightarrow> parse_digits cs (10 * acc + d))"

text \<open>
  \<^verbatim>\<open>int(s)\<close> on a byte string, base 10: surrounding whitespace is dropped, one sign is
  allowed, at least one decimal digit must follow and nothing else; \<open>None\<close> is the
  \<^verbatim>\<open>ValueError\<close>.
\<close>

definition py_int :: "string \<Rightarrow> int option" where
  "py_int s =
     (case strip s of
        [] \<Rightarrow> None
      | c # cs \<Rightarrow>
          (let neg = (c = CHR ''-'');
               ds = (if c = CHR ''-'' \<or> c = CHR ''+'' then cs else c # cs)
           in if ds = [] then None
              else (case parse_digits ds 0 of
                      None \<Rightarrow> None
                    | Some n \<Rightarrow> Some (if neg then - int n else int n))))"

text \<open>\<^verbatim>\<open>s.rpartition('-')[2]\<close>: what follows the last \<^verbatim>\<open>'-'\<close>, the whole string when there is none.\<close>

definition rpartition_tail :: "string \<Rightarrow> string" where
  "rpartition_tail s = rev (takeWhile (\<lambda>c. c \<noteq> CHR ''-'') (rev s))"

section \<open>The mapped classes\<close>

text \<open>
  \<^verbatim>\<open>ModelBase\<close> declares the four bookkeeping columns; its methods also read
  \<^verbatim>\<open>self.id\<close>, the primary key that both subclasses declare in the same way, so the
  base record carries it. Every attribute of an object in memory can read \<^verbatim>\<open>None\<close>,
  hence the options; in a table only \<^verbatim>\<open>id\<close> and \<^verbatim>\<open>image_id\<close> are declared not null,
  which the constraints below say. \<open>identity_key\<close> is the instance state that the
  SQLAlchemy session keeps for an object: \<open>None\<close> for an object that was never flushed,
  the primary key of its row otherwise.
\<close>

record model_base =
  id' :: "int option"
  created_at :: "datetime option"
  updated_at :: "datetime option"
  deleted_at :: "datetime option"
  deleted :: "bool option"
  identity_key :: "int option"

record image = model_base +
  name :: "string option"
  type' :: "string option"
  size' :: "int option"
  status :: "string option"
  is_public :: "bool option"
  location :: "string option"

record image_property = model_base +
  image_id :: "int option"
  key :: "string option"
  value' :: "string option"

text \<open>
  What a session sees: the rows of the two tables, and whether the backend enforces the
  declared foreign key (it depends on the database and on its configuration).
\<close>

record session =
  images :: "image list"
  image_properties :: "image_property list"
  foreign_keys :: bool

subsection \<open>Classes and their tables\<close>

text \<open>
  What the methods of \<^verbatim>\<open>ModelBase\<close> take from the class they are called on:
  \<^verbatim>\<open>__prefix__\<close>, the table behind \<^verbatim>\<open>session.query(cls)\<close> and how a flush writes it
  back, the column defaults that the subclass adds, and the constraints that the store
  checks on the table when a statement is flushed.
\<close>

record 'a model_class =
  prefix :: string
  query :: "session \<Rightarrow> 'a model_base_scheme list"
  store :: "'a model_base_scheme list \<Rightarrow> session \<Rightarrow> session"
  column_defaults :: "'a model_base_scheme \<Rightarrow> 'a model_base_scheme"
  constraints :: "session \<Rightarrow> bool"

text \<open>\<^verbatim>\<open>Column(Integer, primary_key=True)\<close>: no null and no duplicate.\<close>

definition primary_key_ok :: "'a model_base_scheme list \<Rightarrow> bool" where
  "primary_key_ok tbl = (None \<notin> set (map id' tbl) \<and> distinct (map id' tbl))"

text \<open>
  \<^verbatim>\<open>ForeignKey('images.id')\<close>, when the backend enforces it: a non-null
  \<^verbatim>\<open>image_id\<close> is the \<^verbatim>\<open>id\<close> of a row of \<^verbatim>\<open>images\<close>.
\<close>

definition foreign_key_ok :: "session \<Rightarrow> bool" where
  "foreign_key_ok s =
     (foreign_keys s \<longrightarrow>
        list_all (\<lambda>p. image_id p = None \<or> image_id p \<in> set (map id' (images s)))
          (image_properties s))"

text \<open>
  \<^verbatim>\<open>UniqueConstraint('image_id', 'key')\<close> as SQL databases check it: two rows conflict
  when they agree on both columns and neither holds a null; a row with a null in a
  constrained column conflicts with no row.
\<close>

definition unique_image_id_key :: "image_property list \<Rightarrow> bool" where
  "unique_image_id_key tbl =
     distinct (map (\<lambda>p. (image_id p, key p))
                 (filter (\<lambda>p. image_id p \<noteq> None \<and> key p \<noteq> None) tbl))"

definition Image :: "unit image_ext model_class" where
  "Image =
     \<lparr> prefix = ''img'',
       query = images,
       store = (\<lambda>tbl s. s\<lparr>images := tbl\<rparr>),
       column_defaults =
         (\<lambda>e. e\<lparr>is_public := (case is_public e of None \<Rightarrow> Some False | Some b \<Rightarrow> Some b)\<rparr>),
       constraints = (\<lambda>s. primary_key_ok (images s) \<and> foreign_key_ok s) \<rparr>"

definition ImageProperty :: "unit image_property_ext model_class" where
  "ImageProperty =
     \<lparr> prefix = ''img-prop'',
       query = image_properties,
       store = (\<lambda>tbl s. s\<lparr>image_properties := tbl\<rparr>),
       column_defaults = (\<lambda>e. e),
       constraints =
         (\<lambda>s. primary_key_ok (image_properties s)
              \<and> None \<notin> set (map image_id (image_properties s))
              \<and> unique_image_id_key (image_properties s)
              \<and> foreign_key_ok s) \<rparr>"

section \<open>Query helpers of \<^verbatim>\<open>ModelBase\<close>\<close>

text \<open>
  The session is an argument: \<^verbatim>\<open>get_session()\<close>, which the source calls when none is
  passed, returns a session on the same store. \<^verbatim>\<open>filter_by(deleted=d)\<close> is the SQL
  comparison \<^verbatim>\<open>deleted = d\<close>, which a null never satisfies.
\<close>

definition all' :: "'a model_class \<Rightarrow> session \<Rightarrow> bool \<Rightarrow> 'a model_base_scheme list" where
  "all' cls s dflag = filter (\<lambda>e. deleted e = Some dflag) (query cls s)"

definition count :: "'a model_class \<Rightarrow> session \<Rightarrow> bool \<Rightarrow> nat" where
  "count cls s dflag = length (filter (\<lambda>e. deleted e = Some dflag) (query cls s))"

text \<open>\<^verbatim>\<open>Query.one()\<close>: the only row, an error when there is none or more than one.\<close>

fun one :: "'a list \<Rightarrow> error + 'a" where
  "one [] = Inl NoResultFound"
| "one [x] = Inr x"
| "one (x # y # zs) = Inl MultipleResultsFound"

definition find' ::
  "'a model_class \<Rightarrow> int \<Rightarrow> session \<Rightarrow> bool \<Rightarrow> error + 'a model_base_scheme" where
  "find' cls obj_id s dflag =
     (case one (filter (\<lambda>e. deleted e = Some dflag)
                  (filter (\<lambda>e. id' e = Some obj_id) (query cls s))) of
        Inl NoResultFound \<Rightarrow> Inl (NotFound (''No model for id '' @ str_int obj_id))
      | Inl other \<Rightarrow> Inl other
      | Inr e \<Rightarrow> Inr e)"

definition find_by_str ::
  "'a model_class \<Rightarrow> string \<Rightarrow> session \<Rightarrow> bool \<Rightarrow> error + 'a model_base_scheme" where
  "find_by_str cls str_id_arg s dflag =
     (case py_int (rpartition_tail str_id_arg) of
        None \<Rightarrow> Inl ValueError
      | Some int_id \<Rightarrow> find' cls int_id s dflag)"

definition str_id :: "'a model_class \<Rightarrow> 'a model_base_scheme \<Rightarrow> string" where
  "str_id cls e = prefix cls @ ''-'' @ str_int_opt (id' e)"

section \<open>Assignment to an \<^verbatim>\<open>Image\<close>\<close>

text \<open>
  \<^verbatim>\<open>@validates('type')\<close> and \<^verbatim>\<open>@validates('status')\<close>: the validator runs when the
  attribute is set, before the value is stored, and what it returns is stored.
\<close>

definition validate_type :: "string option \<Rightarrow> error + string option" where
  "validate_type v =
     (if v \<notin> set [Some ''machine'', Some ''kernel'', Some ''ramdisk'', Some ''raw'']
      then Inl (Invalid (''Invalid image type '' @ [CHR 0x27] @ str_opt v @ [CHR 0x27] @ '' for image.''))
      else Inr v)"

definition validate_status :: "string option \<Rightarrow> error + string option" where
  "validate_status v =
     (if v \<notin> set [Some ''available'', Some ''pending'', Some ''disabled'']
      then Inl (Invalid (''Invalid status '' @ [CHR 0x27] @ str_opt v @ [CHR 0x27] @ '' for image.''))
      else Inr v)"

text \<open>
  The pair \<open>(key, value)\<close> of \<^verbatim>\<open>setattr(self, key, value)\<close> on an \<^verbatim>\<open>Image\<close>, one
  constructor for each mapped column, the value typed as the column is.
\<close>

datatype image_attr =
    Id "int option"
  | Created_at "datetime option"
  | Updated_at "datetime option"
  | Deleted_at "datetime option"
  | Deleted "bool option"
  | Name "string option"
  | Type "string option"
  | Size "int option"
  | Status "string option"
  | Is_public "bool option"
  | Location "string option"

text \<open>
  An assignment returns the object as it is afterwards and the exception raised, if
  any: when a validator raises, nothing is stored.
\<close>

fun setattr_image :: "image \<Rightarrow> image_attr \<Rightarrow> image \<times> error option" where
  "setattr_image e (Type v) =
     (case validate_type v of
        Inl err \<Rightarrow> (e, Some err)
      | Inr v' \<Rightarrow> (e\<lparr>type' := v'\<rparr>, None))"
| "setattr_image e (Status v) =
     (case validate_status v of
        Inl err \<Rightarrow> (e, Some err)
      | Inr v' \<Rightarrow> (e\<lparr>status := v'\<rparr>, None))"
| "setattr_image e (Id v) = (e\<lparr>id' := v\<rparr>, None)"
| "setattr_image e (Created_at v) = (e\<lparr>created_at := v\<rparr>, None)"
| "setattr_image e (Updated_at v) = (e\<lparr>updated_at := v\<rparr>, None)"
| "setattr_image e (Deleted_at v) = (e\<lparr>deleted_at := v\<rparr>, None)"
| "setattr_image e (Deleted v) = (e\<lparr>deleted := v\<rparr>, None)"
| "setattr_image e (Name v) = (e\<lparr>name := v\<rparr>, None)"
| "setattr_image e (Size v) = (e\<lparr>size' := v\<rparr>, None)"
| "setattr_image e (Is_public v) = (e\<lparr>is_public := v\<rparr>, None)"
| "setattr_image e (Location v) = (e\<lparr>location := v\<rparr>, None)"

text \<open>
  \<^verbatim>\<open>__setitem__\<close> and \<^verbatim>\<open>update\<close> of \<^verbatim>\<open>ModelBase\<close>; \<^verbatim>\<open>setattr\<close> is the one of the
  object's class. \<^verbatim>\<open>values\<close> is the list of items in the order \<^verbatim>\<open>iteritems()\<close> yields
  them; the loop ends at the first exception, with the earlier assignments done.
\<close>

definition setitem :: "('e \<Rightarrow> 'kv \<Rightarrow> 'e \<times> error option) \<Rightarrow> 'e \<Rightarrow> 'kv \<Rightarrow> 'e \<times> error option" where
  "setitem setattr_cls e kv = setattr_cls e kv"

fun update :: "('e \<Rightarrow> 'kv \<Rightarrow> 'e \<times> error option) \<Rightarrow> 'e \<Rightarrow> 'kv list \<Rightarrow> 'e \<times> error option" where
  "update setattr_cls e [] = (e, None)"
| "update setattr_cls e (kv # kvs) =
     (case setitem setattr_cls e kv of
        (e', None) \<Rightarrow> update setattr_cls e' kvs
      | (e', Some err) \<Rightarrow> (e', Some err))"

text \<open>
  \<^verbatim>\<open>Image(**kwargs)\<close>: the declarative constructor sets each keyword argument with
  \<^verbatim>\<open>setattr\<close> on an object whose columns all read \<^verbatim>\<open>None\<close>; an exception leaves no
  object.
\<close>

definition blank_image :: image where
  "blank_image =
     \<lparr> id' = None, created_at = None, updated_at = None, deleted_at = None, deleted = None,
       identity_key = None, name = None, type' = None, size' = None, status = None,
       is_public = None, location = None \<rparr>"


text \<open>
  The pair \<open>(key, value)\<close> of \<^verbatim>\<open>setattr(self, key, value)\<close> on an
  \<^verbatim>\<open>ImageProperty\<close>. The class declares no validator, so every assignment to a mapped
  column stores the value.
\<close>

datatype property_attr =
    P_id "int option"
  | P_created_at "datetime option"
  | P_updated_at "datetime option"
  | P_deleted_at "datetime option"
  | P_deleted "bool option"
  | P_image_id "int option"
  | P_key "string option"
  | P_value "string option"

fun setattr_property :: "image_property \<Rightarrow> property_attr \<Rightarrow> image_property \<times> error option" where
  "setattr_property p (P_id v) = (p\<lparr>id' := v\<rparr>, None)"
| "setattr_property p (P_created_at v) = (p\<lparr>created_at := v\<rparr>, None)"
| "setattr_property p (P_updated_at v) = (p\<lparr>updated_at := v\<rparr>, None)"
| "setattr_property p (P_deleted_at v) = (p\<lparr>deleted_at := v\<rparr>, None)"
| "setattr_property p (P_deleted v) = (p\<lparr>deleted := v\<rparr>, None)"
| "setattr_property p (P_image_id v) = (p\<lparr>image_id := v\<rparr>, None)"
| "setattr_property p (P_key v) = (p\<lparr>key := v\<rparr>, None)"
| "setattr_property p (P_value v) = (p\<lparr>value' := v\<rparr>, None)"

section \<open>\<^verbatim>\<open>save\<close> and \<^verbatim>\<open>delete\<close>\<close>

text \<open>
  What a mutating call leaves behind: the object in memory, the session's tables and the
  exception raised, if any.
\<close>

record 'a outcome =
  obj :: 'a
  sess :: session
  raised :: "error option"

text \<open>The key the store gives a row inserted without one: above every key of the table.\<close>

definition next_id :: "'a model_base_scheme list \<Rightarrow> int" where
  "next_id tbl = fold max (map (\<lambda>e. case id' e of None \<Rightarrow> 0 | Some i \<Rightarrow> i) tbl) 0 + 1"

text \<open>
  The flush of an object that has no row yet is an INSERT. A column that reads
  \<^verbatim>\<open>None\<close> takes its \<^verbatim>\<open>default\<close> (\<^verbatim>\<open>created_at\<close>: the clock; \<^verbatim>\<open>deleted\<close>: false; the
  defaults of the subclass); \<^verbatim>\<open>updated_at\<close> has none. The store checks the constraints
  of the table; when one fails the flush raises and neither the table nor the object
  changes. Afterwards the object holds what was inserted.
\<close>

definition flush_insert ::
  "'a model_class \<Rightarrow> 'a model_base_scheme \<Rightarrow> datetime \<Rightarrow> session \<Rightarrow> 'a model_base_scheme outcome" where
  "flush_insert cls e now s =
     (let tbl = query cls s;
          e1 = column_defaults cls
                 (e\<lparr>created_at := (case created_at e of None \<Rightarrow> Some now | Some t \<Rightarrow> Some t),
                    deleted := (case deleted e of None \<Rightarrow> Some False | Some b \<Rightarrow> Some b)\<rparr>);
          e2 = e1\<lparr>id' := (case id' e1 of None \<Rightarrow> Some (next_id tbl) | Some i \<Rightarrow> Some i)\<rparr>;
          row = e2\<lparr>identity_key := id' e2\<rparr>;
          s' = store cls (tbl @ [row]) s
      in if constraints cls s'
         then \<lparr>obj = row, sess = s', raised = None\<rparr>
         else \<lparr>obj = e, sess = s, raised = Some IntegrityError\<rparr>)"

text \<open>
  The flush of an object that has a row is an UPDATE of that row, and nothing at all
  when no column differs from the row. \<^verbatim>\<open>updated_at\<close> takes its \<^verbatim>\<open>onupdate\<close> value,
  the clock, unless the object assigns it another value itself. An UPDATE that matches no
  row raises the stale-row error.
\<close>

definition flush_update ::
  "'a model_class \<Rightarrow> 'a model_base_scheme \<Rightarrow> datetime \<Rightarrow> session \<Rightarrow> 'a model_base_scheme outcome" where
  "flush_update cls e now s =
     (let tbl = query cls s in
      case find (\<lambda>r. id' r = identity_key e) tbl of
        None \<Rightarrow> \<lparr>obj = e, sess = s, raised = Some StaleDataError\<rparr>
      | Some old \<Rightarrow>
          if e = old then \<lparr>obj = e, sess = s, raised = None\<rparr>
          else
            (let row = e\<lparr>updated_at :=
                           (if updated_at e = updated_at old then Some now else updated_at e),
                         identity_key := id' e\<rparr>;
                 s' = store cls (map (\<lambda>r. if id' r = identity_key e then row else r) tbl) s
             in if constraints cls s'
                then \<lparr>obj = row, sess = s', raised = None\<rparr>
                else \<lparr>obj = e, sess = s, raised = Some IntegrityError\<rparr>))"

text \<open>\<^verbatim>\<open>save\<close>: \<^verbatim>\<open>session.add(self); session.flush()\<close>, \<open>now\<close> the clock during the flush.\<close>

definition save ::
  "'a model_class \<Rightarrow> 'a model_base_scheme \<Rightarrow> datetime \<Rightarrow> session \<Rightarrow> 'a model_base_scheme outcome" where
  "save cls e now s =
     (if identity_key e = None then flush_insert cls e now s else flush_update cls e now s)"

text \<open>
  \<^verbatim>\<open>delete\<close>: the two assignments, \<open>utcnow\<close> the clock read by the second one, then
  \<^verbatim>\<open>save\<close>.
\<close>

definition delete ::
  "'a model_class \<Rightarrow> 'a model_base_scheme \<Rightarrow> datetime \<Rightarrow> datetime \<Rightarrow> session
     \<Rightarrow> 'a model_base_scheme outcome" where
  "delete cls e utcnow now s =
     save cls (e\<lparr>deleted := Some True, deleted_at := Some utcnow\<rparr>) now s"

section \<open>Example data\<close>

text \<open>
  \<^verbatim>\<open>Image(name="ubuntu", type="machine", status="available")\<close> as a row that was saved
  and updated once, a soft-deleted image, a property of the first image, and a session
  holding the three rows.
\<close>

definition ubuntu :: image where
  "ubuntu =
     \<lparr> id' = Some 1, created_at = Some 100, updated_at = Some 120, deleted_at = None,
       deleted = Some False, identity_key = Some 1, name = Some ''ubuntu'',
       type' = Some ''machine'', size' = None, status = Some ''available'',
       is_public = Some False, location = None \<rparr>"

definition retired :: image where
  "retired =
     \<lparr> id' = Some 2, created_at = Some 40, updated_at = Some 50, deleted_at = Some 50,
       deleted = Some True, identity_key = Some 2, name = Some ''lenny'',
       type' = Some ''raw'', size' = Some 7, status = Some ''disabled'',
       is_public = Some True, location = None \<rparr>"

definition arch :: image_property where
  "arch =
     \<lparr> id' = Some 1, created_at = Some 110, updated_at = None, deleted_at = None,
       deleted = Some False, identity_key = Some 1, image_id = Some 1,
       key = Some ''arch'', value' = Some ''x86_64'' \<rparr>"

definition example_session :: session where
  "example_session =
     \<lparr> images = [ubuntu, retired], image_properties = [arch], foreign_keys = True \<rparr>"


definition empty_session :: session where
  "empty_session = \<lparr> images = [], image_properties = [], foreign_keys = True \<rparr>"

text \<open>A new property of the first image that has no key.\<close>

definition unkeyed :: image_property where
  "unkeyed =
     \<lparr> id' = None, created_at = None, updated_at = None, deleted_at = None, deleted = None,
       identity_key = None, image_id = Some 1, key = None, value' = Some ''x'' \<rparr>"

section \<open>Strings and lists\<close>

lemma below_ten:
  "(d::nat) < 10 \<Longrightarrow> d \<in> {0, 1, 2, 3, 4, 5, 6, 7, 8, 9}"
  by auto

lemma digit_val_digit_char: "d < 10 \<Longrightarrow> digit_val (digit_char d) = Some d"
  using below_ten [of d] by (auto simp: digit_val_def digit_char_def)

lemma parse_digits_append:
  "parse_digits (xs @ ys) acc =
     (case parse_digits xs acc of None \<Rightarrow> None | Some m \<Rightarrow> parse_digits ys m)"
  by (induction xs arbitrary: acc) (auto split: option.splits)

lemma parse_digits_digits: "parse_digits (digits n) 0 = Some n"
proof (induction n rule: digits.induct)
  case (1 n)
  show ?case
  proof (cases "n < 10")
    case True
    then show ?thesis
      by (subst digits.simps) (simp add: digit_val_digit_char)
  next
    case False
    then have "parse_digits (digits (n div 10)) 0 = Some (n div 10)"
      using "1" by simp
    with False show ?thesis
      by (subst digits.simps) (simp add: parse_digits_append digit_val_digit_char)
  qed
qed

lemma digit_char_facts:
  "d < 10 \<Longrightarrow> \<not> is_space (digit_char d) \<and> digit_char d \<noteq> CHR ''-'' \<and> digit_char d \<noteq> CHR ''+''"
  using below_ten [of d] by (auto simp: is_space_def digit_char_def)

lemma digits_small: "n < 10 \<Longrightarrow> digits n = [digit_char n]"
  by (subst digits.simps) simp

lemma digits_large: "\<not> n < 10 \<Longrightarrow> digits n = digits (n div 10) @ [digit_char (n mod 10)]"
  by (subst digits.simps) simp

lemma digits_chars:
  "c \<in> set (digits n) \<Longrightarrow> \<not> is_space c \<and> c \<noteq> CHR ''-'' \<and> c \<noteq> CHR ''+''"
proof (induction n rule: digits.induct)
  case (1 n)
  show ?case
  proof (cases "n < 10")
    case True
    with "1.prems" have "c = digit_char n"
      by (simp add: digits_small)
    with True show ?thesis
      using digit_char_facts [of n] by simp
  next
    case False
    with "1.prems" have "c = digit_char (n mod 10) \<or> c \<in> set (digits (n div 10))"
      by (simp add: digits_large)
    then show ?thesis
    proof
      assume c: "c = digit_char (n mod 10)"
      have "n mod 10 < 10"
        by simp
      then show ?thesis
        unfolding c by (rule digit_char_facts)
    next
      assume "c \<in> set (digits (n div 10))"
      then show ?thesis
        using False by (rule "1.IH" [rotated])
    qed
  qed
qed

lemma digits_nonempty: "digits n \<noteq> []"
  by (subst digits.simps) simp

lemma strip_no_space: "\<forall>c \<in> set s. \<not> is_space c \<Longrightarrow> strip s = s"
proof -
  assume a: "\<forall>c \<in> set s. \<not> is_space c"
  have d: "\<And>xs. \<forall>c \<in> set xs. \<not> is_space c \<Longrightarrow> dropWhile is_space xs = xs"
    by (case_tac xs) auto
  from a show ?thesis
    by (simp add: strip_def d)
qed

lemma py_int_digits: "py_int (digits n) = Some (int n)"
proof -
  obtain c cs where cs: "digits n = c # cs"
    using digits_nonempty [of n] by (cases "digits n") auto
  have "c \<in> set (digits n)"
    by (simp add: cs)
  then have c: "c \<noteq> CHR ''-''" "c \<noteq> CHR ''+''"
    using digits_chars by blast+
  have "strip (digits n) = digits n"
    using digits_chars by (intro strip_no_space) blast
  then show ?thesis
    using c parse_digits_digits [of n] by (simp add: py_int_def cs)
qed

lemma takeWhile_no_sep:
  "CHR ''-'' \<notin> set xs \<Longrightarrow> takeWhile (\<lambda>c. c \<noteq> CHR ''-'') xs = xs"
  by (induction xs) auto

lemma rpartition_tail_sep:
  "CHR ''-'' \<notin> set suf \<Longrightarrow> rpartition_tail (pre @ CHR ''-'' # suf) = suf"
  by (simp add: rpartition_tail_def takeWhile_tail takeWhile_no_sep)

lemma rpartition_tail_whole:
  "CHR ''-'' \<notin> set s \<Longrightarrow> rpartition_tail s = s"
  by (simp add: rpartition_tail_def takeWhile_no_sep)


lemma py_int_str_int: "0 \<le> i \<Longrightarrow> py_int (str_int i) = Some i"
  by (simp add: str_int_def py_int_digits)

lemma no_sep_digits: "CHR ''-'' \<notin> set (digits n)"
  using digits_chars by blast

lemma filter_filter_conj: "filter P (filter Q xs) = filter (\<lambda>x. Q x \<and> P x) xs"
  by (induction xs) auto

lemma at_most_one:
  "distinct (map f xs) \<Longrightarrow> \<forall>x \<in> set xs. f x = c \<Longrightarrow> xs = [] \<or> (\<exists>x. xs = [x])"
proof (cases xs)
  case Nil
  then show ?thesis by simp
next
  case (Cons x ys)
  assume d: "distinct (map f xs)" and c: "\<forall>x \<in> set xs. f x = c"
  show ?thesis
  proof (cases ys)
    case Nil
    with Cons show ?thesis by simp
  next
    case (Cons y zs)
    with \<open>xs = x # ys\<close> d c show ?thesis by auto
  qed
qed

lemma one_cases:
  "one xs = Inr e \<longleftrightarrow> xs = [e]"
  "one xs = Inl NoResultFound \<longleftrightarrow> xs = []"
  by (cases xs rule: one.cases; simp)+

section \<open>The query helpers\<close>

text \<open>
  C1. For every class, \<^verbatim>\<open>all(deleted)\<close> returns exactly the rows of the class's table whose
  \<^verbatim>\<open>deleted\<close> flag equals the argument, \<^verbatim>\<open>count(deleted)\<close> returns how many there are
  (their cardinality when the rows are distinct), and with the default
  \<^verbatim>\<open>deleted=False\<close> no soft-deleted row is in the result.
\<close>

theorem all_count_filter_by_deleted:
  "set (all' cls s dflag) = {e \<in> set (query cls s). deleted e = Some dflag}
   \<and> count cls s dflag = length (all' cls s dflag)
   \<and> (distinct (query cls s) \<longrightarrow>
        count cls s dflag = card {e \<in> set (query cls s). deleted e = Some dflag})
   \<and> (\<forall>e \<in> set (all' cls s False). deleted e \<noteq> Some True)"
proof -
  have "distinct (query cls s) \<Longrightarrow>
        count cls s dflag = card {e \<in> set (query cls s). deleted e = Some dflag}"
  proof -
    assume "distinct (query cls s)"
    then have "distinct (filter (\<lambda>e. deleted e = Some dflag) (query cls s))"
      by simp
    then have "card (set (filter (\<lambda>e. deleted e = Some dflag) (query cls s)))
               = length (filter (\<lambda>e. deleted e = Some dflag) (query cls s))"
      by (rule distinct_card)
    then show ?thesis
      by (simp add: count_def)
  qed
  then show ?thesis
    by (simp add: all'_def count_def)
qed

theorem all_count_filter_by_deleted_witness:
  "distinct (query Image example_session)
   \<and> all' Image example_session False = [ubuntu]
   \<and> all' Image example_session True = [retired]
   \<and> count Image example_session False
       = card {e \<in> set (query Image example_session). deleted e = Some False}
   \<and> count Image example_session False = 1
   \<and> retired \<notin> set (all' Image example_session False)"
proof -
  have q: "query Image example_session = [ubuntu, retired]"
    by (simp add: Image_def example_session_def)
  have ne: "ubuntu \<noteq> retired"
    by (simp add: ubuntu_def retired_def)
  have d: "distinct (query Image example_session)"
    unfolding q using ne by simp
  have live: "all' Image example_session False = [ubuntu]"
    unfolding all'_def q by (simp add: ubuntu_def retired_def)
  have gone: "all' Image example_session True = [retired]"
    unfolding all'_def q by (simp add: ubuntu_def retired_def)
  have n: "count Image example_session False = 1"
    unfolding count_def q by (simp add: ubuntu_def retired_def)
  have nr: "retired \<notin> set (all' Image example_session False)"
    unfolding live using ne by simp
  have c: "count Image example_session False
           = card {e \<in> set (query Image example_session). deleted e = Some False}"
    using all_count_filter_by_deleted [of Image example_session False] d by blast
  from d live gone c n nr show ?thesis
    by blast
qed

text \<open>
  C4. When the primary key is unique in the table (the store guarantees it),
  \<^verbatim>\<open>find(id, deleted)\<close> returns an entity exactly when it is the row with that id and
  that \<^verbatim>\<open>deleted\<close> flag, raises \<^verbatim>\<open>NotFound\<close> exactly when no row matches, and raises
  nothing else.
\<close>

theorem find_unique_or_not_found:
  assumes pk: "primary_key_ok (query cls s)"
  shows "(find' cls i s d = Inr e \<longleftrightarrow>
            e \<in> set (query cls s) \<and> id' e = Some i \<and> deleted e = Some d)
       \<and> (find' cls i s d = Inl (NotFound (''No model for id '' @ str_int i)) \<longleftrightarrow>
            \<not> (\<exists>x \<in> set (query cls s). id' x = Some i \<and> deleted x = Some d))
       \<and> (\<forall>err. find' cls i s d = Inl err \<longrightarrow> err = NotFound (''No model for id '' @ str_int i))"
proof -
  let ?xs = "filter (\<lambda>x. id' x = Some i \<and> deleted x = Some d) (query cls s)"
  have f: "find' cls i s d =
             (case one ?xs of
                Inl NoResultFound \<Rightarrow> Inl (NotFound (''No model for id '' @ str_int i))
              | Inl other \<Rightarrow> Inl other
              | Inr e \<Rightarrow> Inr e)"
    by (simp add: find'_def filter_filter_conj)
  have "distinct (map id' ?xs)"
    using pk by (simp add: primary_key_ok_def distinct_map_filter)
  then have shape: "?xs = [] \<or> (\<exists>x. ?xs = [x])"
    by (rule at_most_one [where c = "Some i"]) simp
  have mem: "\<And>x. ?xs = [x] \<Longrightarrow> (\<And>y. y \<in> set ?xs \<longleftrightarrow> y = x)"
    by simp
  show ?thesis
  proof (cases "?xs = []")
    case True
    then have "\<not> (\<exists>x \<in> set (query cls s). id' x = Some i \<and> deleted x = Some d)"
      by (simp add: filter_empty_conv)
    with True f show ?thesis
      by auto
  next
    case False
    with shape obtain x where x: "?xs = [x]"
      by blast
    then have r: "find' cls i s d = Inr x"
      using f by simp
    have m: "\<And>y. (y \<in> set (query cls s) \<and> id' y = Some i \<and> deleted y = Some d) \<longleftrightarrow> y = x"
      using mem [OF x] by simp
    show ?thesis
      using r m by auto
  qed
qed

theorem find_unique_or_not_found_witness:
  "primary_key_ok (query Image example_session)
   \<and> find' Image 1 example_session False = Inr ubuntu
   \<and> find' Image 2 example_session True = Inr retired
   \<and> find' Image 2 example_session False = Inl (NotFound ''No model for id 2'')"
proof -
  have q: "query Image example_session = [ubuntu, retired]"
    by (simp add: Image_def example_session_def)
  have pk: "primary_key_ok (query Image example_session)"
    unfolding q by (simp add: primary_key_ok_def ubuntu_def retired_def)
  have "ubuntu \<in> set (query Image example_session) \<and> id' ubuntu = Some 1
        \<and> deleted ubuntu = Some False"
    unfolding q by (simp add: ubuntu_def)
  then have live: "find' Image 1 example_session False = Inr ubuntu"
    using find_unique_or_not_found [OF pk, of 1 False ubuntu] by blast
  have "retired \<in> set (query Image example_session) \<and> id' retired = Some 2
        \<and> deleted retired = Some True"
    unfolding q by (simp add: retired_def)
  then have gone: "find' Image 2 example_session True = Inr retired"
    using find_unique_or_not_found [OF pk, of 2 True retired] by blast
  have "\<not> (\<exists>x \<in> set (query Image example_session). id' x = Some 2 \<and> deleted x = Some False)"
    unfolding q by (simp add: ubuntu_def retired_def)
  then have "find' Image 2 example_session False = Inl (NotFound (''No model for id '' @ str_int 2))"
    using find_unique_or_not_found [OF pk, of 2 False ubuntu] by blast
  moreover have "str_int 2 = ''2''"
    by (simp add: str_int_def digits.simps digit_char_def)
  ultimately have "find' Image 2 example_session False = Inl (NotFound ''No model for id 2'')"
    by simp
  with pk live gone show ?thesis
    by blast
qed

text \<open>
  C5. \<^verbatim>\<open>find_by_str(str_id, deleted)\<close> applies \<^verbatim>\<open>int()\<close> to what follows the last
  \<^verbatim>\<open>'-'\<close> of \<^verbatim>\<open>str_id\<close> (to all of it when there is no \<^verbatim>\<open>'-'\<close>) and calls
  \<^verbatim>\<open>find\<close> with that integer and the same \<^verbatim>\<open>deleted\<close> filter; it raises the
  \<^verbatim>\<open>ValueError\<close> of \<^verbatim>\<open>int()\<close> when the suffix is not an integer literal. So
  \<^verbatim>\<open>find_by_str("img-7")\<close> is \<^verbatim>\<open>find(7)\<close> on \<^verbatim>\<open>Image\<close> and
  \<^verbatim>\<open>find_by_str("img-prop-3")\<close> is \<^verbatim>\<open>find(3)\<close> on \<^verbatim>\<open>ImageProperty\<close>.
\<close>

theorem find_by_str_parses_suffix:
  "(CHR ''-'' \<notin> set suf \<longrightarrow>
      find_by_str cls (pre @ ''-'' @ suf) s d =
        (case py_int suf of None \<Rightarrow> Inl ValueError | Some n \<Rightarrow> find' cls n s d)
    \<and> find_by_str cls suf s d =
        (case py_int suf of None \<Rightarrow> Inl ValueError | Some n \<Rightarrow> find' cls n s d))
   \<and> find_by_str cls (pre @ ''-'' @ str_int (int n)) s d = find' cls (int n) s d
   \<and> find_by_str Image ''img-7'' s d = find' Image 7 s d
   \<and> find_by_str ImageProperty ''img-prop-3'' s d = find' ImageProperty 3 s d"
proof -
  have a: "find_by_str c (p @ ''-'' @ str_int (int m)) s d = find' c (int m) s d"
    for c :: "'b model_class" and p m
    using rpartition_tail_sep [OF no_sep_digits, of p m]
    by (simp add: find_by_str_def str_int_def py_int_digits)
  have d7: "str_int 7 = ''7''" and d3: "str_int 3 = ''3''"
    by (simp_all add: str_int_def digits.simps digit_char_def)
  have i7: "find_by_str Image ''img-7'' s d = find' Image 7 s d"
    using a [of Image "''img''" 7] by (simp add: d7)
  have p3: "find_by_str ImageProperty ''img-prop-3'' s d = find' ImageProperty 3 s d"
    using a [of ImageProperty "''img-prop''" 3] by (simp add: d3)
  have sep: "CHR ''-'' \<notin> set suf \<Longrightarrow>
      find_by_str cls (pre @ ''-'' @ suf) s d =
        (case py_int suf of None \<Rightarrow> Inl ValueError | Some n \<Rightarrow> find' cls n s d)"
    by (simp add: find_by_str_def rpartition_tail_sep)
  have whole: "CHR ''-'' \<notin> set suf \<Longrightarrow>
      find_by_str cls suf s d =
        (case py_int suf of None \<Rightarrow> Inl ValueError | Some n \<Rightarrow> find' cls n s d)"
    by (simp add: find_by_str_def rpartition_tail_whole)
  show ?thesis
    using a [of cls pre n] i7 p3 sep whole by blast
qed

theorem find_by_str_parses_suffix_witness:
  "CHR ''-'' \<notin> set ''1''
   \<and> find_by_str Image ''img-1'' example_session False = Inr ubuntu
   \<and> find_by_str Image ''1'' example_session False = Inr ubuntu
   \<and> CHR ''-'' \<notin> set ''one''
   \<and> find_by_str Image ''img-one'' example_session False = Inl ValueError"
proof -
  have one: "py_int ''1'' = Some 1" and word: "py_int ''one'' = None"
    by (simp_all add: py_int_def strip_def is_space_def digit_val_def)
  have f: "find' Image 1 example_session False = Inr ubuntu"
    by (simp add: find'_def Image_def example_session_def ubuntu_def retired_def)
  have "find_by_str Image ''img-1'' example_session False = Inr ubuntu"
    and "find_by_str Image ''1'' example_session False = Inr ubuntu"
    using find_by_str_parses_suffix [of "''1''" Image "''img''" example_session False]
    by (simp_all add: one f)
  moreover have "find_by_str Image ''img-one'' example_session False = Inl ValueError"
    using find_by_str_parses_suffix [of "''one''" Image "''img''" example_session False]
    by (simp add: word)
  ultimately show ?thesis
    by simp
qed

section \<open>The string identifier\<close>

lemma str_int_small: "str_int 5 = ''5''" "str_int 2 = ''2''" "str_int 1 = ''1''"
  by (simp_all add: str_int_def digits_small digit_char_def)

lemma fold_max_lower: "(a::int) \<le> fold max xs a"
proof (induction xs arbitrary: a)
  case Nil
  then show ?case by simp
next
  case (Cons x xs)
  have "a \<le> max x a"
    by simp
  also have "\<dots> \<le> fold max xs (max x a)"
    by (rule Cons.IH)
  finally show ?case
    by simp
qed

lemma next_id_positive: "1 \<le> next_id tbl"
  using fold_max_lower [of 0] by (simp add: next_id_def)

lemma insert_assigns_next_id:
  assumes "\<And>x. id' (column_defaults cls x) = id' x"
    and "id' e = None" and "identity_key e = None" and "raised (save cls e now s) = None"
  shows "id' (obj (save cls e now s)) = Some (next_id (query cls s))"
  using assms
  by (simp add: save_def flush_insert_def Let_def split: if_splits)

lemma column_defaults_id:
  "id' (column_defaults Image e) = id' e"
  "id' (column_defaults ImageProperty p) = id' p"
  by (simp_all add: Image_def ImageProperty_def)

lemma str_id_format: "id' x = Some j \<Longrightarrow> str_id c x = prefix c @ ''-'' @ str_int j"
  by (simp add: str_id_def str_int_opt_def)

lemma round_trip_nonneg:
  assumes "id' e = Some i" and "0 \<le> i"
  shows "py_int (rpartition_tail (str_id cls e)) = Some i"
    and "find_by_str cls (str_id cls e) s d = find' cls i s d"
proof -
  from assms have "str_id cls e = prefix cls @ CHR ''-'' # digits (nat i)"
    by (simp add: str_id_def str_int_opt_def str_int_def)
  then have "rpartition_tail (str_id cls e) = digits (nat i)"
    using rpartition_tail_sep [OF no_sep_digits, of "prefix cls" "nat i"] by simp
  with assms show parsed: "py_int (rpartition_tail (str_id cls e)) = Some i"
    by (simp add: py_int_digits)
  then show "find_by_str cls (str_id cls e) s d = find' cls i s d"
    by (simp add: find_by_str_def)
qed

text \<open>
  C6. For every entity with an integer id, \<^verbatim>\<open>str_id\<close> is the class prefix, \<^verbatim>\<open>'-'\<close> and
  the decimal id (\<^verbatim>\<open>"img-<id>"\<close> for an image, \<^verbatim>\<open>"img-prop-<id>"\<close> for a property).
  For every id that is not negative the suffix after the last \<^verbatim>\<open>'-'\<close> parses back to the
  id, and \<^verbatim>\<open>find_by_str(e.str_id)\<close> is \<^verbatim>\<open>find(e.id)\<close>. The ids that the store assigns
  are at least 1: an image or a property saved without an id gets one, and its
  \<^verbatim>\<open>str_id\<close> leads back to it.
\<close>

theorem str_id_round_trip:
  fixes img :: image and p :: image_property
  shows
    "(id' e = Some i \<longrightarrow> str_id cls e = prefix cls @ ''-'' @ str_int i)
     \<and> (id' img = Some i \<longrightarrow> str_id Image img = ''img-'' @ str_int i)
     \<and> (id' p = Some i \<longrightarrow> str_id ImageProperty p = ''img-prop-'' @ str_int i)
     \<and> (id' e = Some i \<and> 0 \<le> i \<longrightarrow>
          py_int (rpartition_tail (str_id cls e)) = Some i
          \<and> find_by_str cls (str_id cls e) s d = find' cls i s d)
     \<and> 1 \<le> next_id tbl
     \<and> (id' img = None \<and> identity_key img = None \<and> raised (save Image img now s0) = None \<longrightarrow>
          id' (obj (save Image img now s0)) = Some (next_id (images s0))
          \<and> str_id Image (obj (save Image img now s0)) = ''img-'' @ str_int (next_id (images s0))
          \<and> py_int (rpartition_tail (str_id Image (obj (save Image img now s0))))
              = id' (obj (save Image img now s0))
          \<and> find_by_str Image (str_id Image (obj (save Image img now s0))) s d
              = find' Image (next_id (images s0)) s d)
     \<and> (id' p = None \<and> identity_key p = None \<and> raised (save ImageProperty p now s0) = None \<longrightarrow>
          id' (obj (save ImageProperty p now s0)) = Some (next_id (image_properties s0))
          \<and> str_id ImageProperty (obj (save ImageProperty p now s0))
              = ''img-prop-'' @ str_int (next_id (image_properties s0))
          \<and> py_int (rpartition_tail (str_id ImageProperty (obj (save ImageProperty p now s0))))
              = id' (obj (save ImageProperty p now s0))
          \<and> find_by_str ImageProperty (str_id ImageProperty (obj (save ImageProperty p now s0))) s d
              = find' ImageProperty (next_id (image_properties s0)) s d)"
proof -
  note fmt = str_id_format
  have pi: "prefix Image = ''img''" and pp: "prefix ImageProperty = ''img-prop''"
    and qi: "query Image s0 = images s0" and qp: "query ImageProperty s0 = image_properties s0"
    by (simp_all add: Image_def ImageProperty_def)
  have a: "id' e = Some i \<longrightarrow> str_id cls e = prefix cls @ ''-'' @ str_int i"
    using fmt by blast
  have b: "id' img = Some i \<longrightarrow> str_id Image img = ''img-'' @ str_int i"
    using fmt [where x = img and j = i and c = Image] by (simp add: pi)
  have c: "id' p = Some i \<longrightarrow> str_id ImageProperty p = ''img-prop-'' @ str_int i"
    using fmt [where x = p and j = i and c = ImageProperty] by (simp add: pp)
  have d: "id' e = Some i \<and> 0 \<le> i \<longrightarrow>
          py_int (rpartition_tail (str_id cls e)) = Some i
          \<and> find_by_str cls (str_id cls e) s d = find' cls i s d"
    using round_trip_nonneg [where e = e and i = i and cls = cls] by blast
  have pos: "0 \<le> next_id t" for t :: "'c model_base_scheme list"
    using next_id_positive [of t] by simp
  have f: "id' (obj (save Image img now s0)) = Some (next_id (images s0))
          \<and> str_id Image (obj (save Image img now s0)) = ''img-'' @ str_int (next_id (images s0))
          \<and> py_int (rpartition_tail (str_id Image (obj (save Image img now s0))))
              = id' (obj (save Image img now s0))
          \<and> find_by_str Image (str_id Image (obj (save Image img now s0))) s d
              = find' Image (next_id (images s0)) s d"
    if h: "id' img = None" "identity_key img = None" "raised (save Image img now s0) = None"
  proof -
    have k: "id' (obj (save Image img now s0)) = Some (next_id (images s0))"
      using insert_assigns_next_id [of Image img now s0] h by (simp add: column_defaults_id qi)
    from k have fm: "str_id Image (obj (save Image img now s0)) = ''img-'' @ str_int (next_id (images s0))"
      using fmt [where c = Image] by (simp add: pi)
    have "py_int (rpartition_tail (str_id Image (obj (save Image img now s0))))
          = Some (next_id (images s0))"
      using k pos by (rule round_trip_nonneg(1))
    then have r1: "py_int (rpartition_tail (str_id Image (obj (save Image img now s0))))
          = id' (obj (save Image img now s0))"
      by (simp only: k)
    have r2: "find_by_str Image (str_id Image (obj (save Image img now s0))) s d
              = find' Image (next_id (images s0)) s d"
      using k pos by (rule round_trip_nonneg(2))
    from k fm r1 r2 show ?thesis
      by blast
  qed
  have g: "id' (obj (save ImageProperty p now s0)) = Some (next_id (image_properties s0))
          \<and> str_id ImageProperty (obj (save ImageProperty p now s0))
              = ''img-prop-'' @ str_int (next_id (image_properties s0))
          \<and> py_int (rpartition_tail (str_id ImageProperty (obj (save ImageProperty p now s0))))
              = id' (obj (save ImageProperty p now s0))
          \<and> find_by_str ImageProperty (str_id ImageProperty (obj (save ImageProperty p now s0))) s d
              = find' ImageProperty (next_id (image_properties s0)) s d"
    if h: "id' p = None" "identity_key p = None" "raised (save ImageProperty p now s0) = None"
  proof -
    have k: "id' (obj (save ImageProperty p now s0)) = Some (next_id (image_properties s0))"
      using insert_assigns_next_id [of ImageProperty p now s0] h
      by (simp add: column_defaults_id qp)
    from k have fm: "str_id ImageProperty (obj (save ImageProperty p now s0))
                 = ''img-prop-'' @ str_int (next_id (image_properties s0))"
      using fmt [where c = ImageProperty] by (simp add: pp)
    have "py_int (rpartition_tail (str_id ImageProperty (obj (save ImageProperty p now s0))))
          = Some (next_id (image_properties s0))"
      using k pos by (rule round_trip_nonneg(1))
    then have r1: "py_int (rpartition_tail (str_id ImageProperty (obj (save ImageProperty p now s0))))
          = id' (obj (save ImageProperty p now s0))"
      by (simp only: k)
    have r2: "find_by_str ImageProperty (str_id ImageProperty (obj (save ImageProperty p now s0))) s d
              = find' ImageProperty (next_id (image_properties s0)) s d"
      using k pos by (rule round_trip_nonneg(2))
    from k fm r1 r2 show ?thesis
      by blast
  qed
  from a b c d next_id_positive [of tbl] f g show ?thesis
    by blast
qed

theorem str_id_round_trip_witness:
  "id' ubuntu = Some 1 \<and> (0::int) \<le> 1
   \<and> str_id Image ubuntu = ''img-1''
   \<and> id' arch = Some 1
   \<and> str_id ImageProperty arch = ''img-prop-1''
   \<and> find_by_str Image (str_id Image ubuntu) example_session False = Inr ubuntu
   \<and> id' blank_image = None \<and> identity_key blank_image = None
   \<and> raised (save Image blank_image 100 empty_session) = None
   \<and> id' (obj (save Image blank_image 100 empty_session)) = Some 1
   \<and> str_id Image (obj (save Image blank_image 100 empty_session)) = ''img-1''
   \<and> find_by_str Image (str_id Image (obj (save Image blank_image 100 empty_session)))
         (sess (save Image blank_image 100 empty_session)) False
       = Inr (obj (save Image blank_image 100 empty_session))
   \<and> id' unkeyed = None \<and> identity_key unkeyed = None
   \<and> raised (save ImageProperty unkeyed 130 example_session) = None
   \<and> str_id ImageProperty (obj (save ImageProperty unkeyed 130 example_session))
       = ''img-prop-2''"
proof -
  have i: "id' ubuntu = Some 1" and j: "id' arch = Some 1"
    by (simp_all add: ubuntu_def arch_def)
  have f: "find' Image 1 example_session False = Inr ubuntu"
    by (simp add: find'_def Image_def example_session_def ubuntu_def retired_def)
  have z: "(0::int) \<le> 1"
    by simp
  note rt = str_id_round_trip
    [where e = ubuntu and i = 1 and cls = Image and img = ubuntu and p = arch
       and s = example_session and d = False]
  from rt i have "str_id Image ubuntu = ''img-'' @ str_int 1"
    by blast
  then have a: "str_id Image ubuntu = ''img-1''"
    by (simp add: str_int_small)
  from rt j have "str_id ImageProperty arch = ''img-prop-'' @ str_int 1"
    by blast
  then have b: "str_id ImageProperty arch = ''img-prop-1''"
    by (simp add: str_int_small)
  from rt i z have "find_by_str Image (str_id Image ubuntu) example_session False
        = find' Image 1 example_session False"
    by blast
  then have c: "find_by_str Image (str_id Image ubuntu) example_session False = Inr ubuntu"
    by (simp only: f)
  have n: "id' blank_image = None" "identity_key blank_image = None"
    "id' unkeyed = None" "identity_key unkeyed = None"
    by (simp_all add: blank_image_def unkeyed_def)
  have sv: "save Image blank_image 100 empty_session =
             \<lparr>obj = blank_image\<lparr>id' := Some 1, created_at := Some 100, deleted := Some False,
                                  identity_key := Some 1, is_public := Some False\<rparr>,
              sess = \<lparr>images = [blank_image\<lparr>id' := Some 1, created_at := Some 100,
                                   deleted := Some False, identity_key := Some 1,
                                   is_public := Some False\<rparr>],
                      image_properties = [], foreign_keys = True\<rparr>,
              raised = None\<rparr>"
    by (simp add: save_def flush_insert_def Image_def blank_image_def empty_session_def
        next_id_def primary_key_ok_def foreign_key_ok_def Let_def)
  have ok: "raised (save Image blank_image 100 empty_session) = None"
    by (simp add: sv)
  have nx: "next_id (images empty_session) = 1"
    by (simp add: next_id_def empty_session_def)
  note rs = str_id_round_trip
    [where img = blank_image and now = 100 and ?s0.0 = empty_session
       and s = "sess (save Image blank_image 100 empty_session)" and d = False]
  from rs n(1,2) ok
  have g1: "id' (obj (save Image blank_image 100 empty_session)) = Some (next_id (images empty_session))"
    and g2: "str_id Image (obj (save Image blank_image 100 empty_session))
             = ''img-'' @ str_int (next_id (images empty_session))"
    and g3: "find_by_str Image (str_id Image (obj (save Image blank_image 100 empty_session)))
               (sess (save Image blank_image 100 empty_session)) False
             = find' Image (next_id (images empty_session))
                 (sess (save Image blank_image 100 empty_session)) False"
    by blast+
  have h1: "id' (obj (save Image blank_image 100 empty_session)) = Some 1"
    using g1 by (simp only: nx)
  have h2: "str_id Image (obj (save Image blank_image 100 empty_session)) = ''img-1''"
    using g2 by (simp add: nx str_int_small)
  have "find' Image 1 (sess (save Image blank_image 100 empty_session)) False
        = Inr (obj (save Image blank_image 100 empty_session))"
    unfolding sv by (simp add: find'_def Image_def blank_image_def)
  with g3 have h3: "find_by_str Image (str_id Image (obj (save Image blank_image 100 empty_session)))
               (sess (save Image blank_image 100 empty_session)) False
             = Inr (obj (save Image blank_image 100 empty_session))"
    by (simp only: nx)
  have okp: "raised (save ImageProperty unkeyed 130 example_session) = None"
    by code_simp
  have nxp: "next_id (image_properties example_session) = 2"
    by (simp add: next_id_def example_session_def arch_def)
  note rp = str_id_round_trip
    [where p = unkeyed and now = 130 and ?s0.0 = example_session]
  from rp n(3,4) okp
  have "str_id ImageProperty (obj (save ImageProperty unkeyed 130 example_session))
        = ''img-prop-'' @ str_int (next_id (image_properties example_session))"
    by blast
  then have h4: "str_id ImageProperty (obj (save ImageProperty unkeyed 130 example_session))
        = ''img-prop-2''"
    by (simp add: nxp str_int_small)
  show ?thesis
    by (intro conjI) (fact i j z a b c n ok h1 h2 h3 okp h4)+
qed

section \<open>Validation of \<^verbatim>\<open>type\<close> and \<^verbatim>\<open>status\<close>\<close>



text \<open>
  C7. Assigning to an image a \<^verbatim>\<open>type\<close> outside machine, kernel, ramdisk, raw, or a
  \<^verbatim>\<open>status\<close> outside available, pending, disabled (by attribute or by item) raises
  \<^verbatim>\<open>Invalid\<close> with a message that quotes the value, and leaves the image as it was.
\<close>

theorem invalid_assignment_raises:
  "(v \<notin> set [Some ''machine'', Some ''kernel'', Some ''ramdisk'', Some ''raw''] \<longrightarrow>
      setattr_image e (Type v)
        = (e, Some (Invalid (''Invalid image type '' @ [CHR 0x27] @ str_opt v @ [CHR 0x27]
                              @ '' for image.'')))
      \<and> setitem setattr_image e (Type v) = setattr_image e (Type v))
   \<and> (w \<notin> set [Some ''available'', Some ''pending'', Some ''disabled''] \<longrightarrow>
      setattr_image e (Status w)
        = (e, Some (Invalid (''Invalid status '' @ [CHR 0x27] @ str_opt w @ [CHR 0x27]
                              @ '' for image.'')))
      \<and> setitem setattr_image e (Status w) = setattr_image e (Status w))"
  by (simp add: validate_type_def validate_status_def setitem_def)

theorem invalid_assignment_raises_witness:
  "Some ''vhd'' \<notin> set [Some ''machine'', Some ''kernel'', Some ''ramdisk'', Some ''raw'']
   \<and> setattr_image ubuntu (Type (Some ''vhd''))
       = (ubuntu, Some (Invalid (''Invalid image type '' @ [CHR 0x27] @ ''vhd'' @ [CHR 0x27]
                                  @ '' for image.'')))
   \<and> type' (fst (setattr_image ubuntu (Type (Some ''vhd'')))) = Some ''machine''
   \<and> None \<notin> set [Some ''available'', Some ''pending'', Some ''disabled'']
   \<and> setattr_image ubuntu (Status None)
       = (ubuntu, Some (Invalid (''Invalid status '' @ [CHR 0x27] @ ''None'' @ [CHR 0x27]
                                  @ '' for image.'')))"
proof -
  have a: "Some ''vhd'' \<notin> set [Some ''machine'', Some ''kernel'', Some ''ramdisk'', Some ''raw'']"
    and b: "None \<notin> set [Some ''available'', Some ''pending'', Some ''disabled'']"
    by simp_all
  note t = invalid_assignment_raises [of "Some ''vhd''" ubuntu None]
  from t a have c: "setattr_image ubuntu (Type (Some ''vhd''))
       = (ubuntu, Some (Invalid (''Invalid image type '' @ [CHR 0x27] @ str_opt (Some ''vhd'')
                                  @ [CHR 0x27] @ '' for image.'')))"
    by blast
  from t b have d: "setattr_image ubuntu (Status None)
       = (ubuntu, Some (Invalid (''Invalid status '' @ [CHR 0x27] @ str_opt None @ [CHR 0x27]
                                  @ '' for image.'')))"
    by blast
  have m: "type' ubuntu = Some ''machine''"
    by (simp add: ubuntu_def)
  from a b c d m show ?thesis
    by (simp add: str_opt_def)
qed




section \<open>\<^verbatim>\<open>save\<close> and \<^verbatim>\<open>delete\<close>\<close>

text \<open>What the two classes give: the table written by a flush is the table read back.\<close>

lemma query_store:
  "query Image (store Image imgs s) = imgs"
  "query ImageProperty (store ImageProperty props s) = props"
  by (simp_all add: Image_def ImageProperty_def)

lemma column_defaults_base:
  "deleted (column_defaults Image e) = deleted e"
  "deleted_at (column_defaults Image e) = deleted_at e"
  "deleted (column_defaults ImageProperty p) = deleted p"
  "deleted_at (column_defaults ImageProperty p) = deleted_at p"
  by (simp_all add: Image_def ImageProperty_def)

lemma constraints_primary_key:
  "constraints Image s \<Longrightarrow> primary_key_ok (query Image s)"
  "constraints ImageProperty s \<Longrightarrow> primary_key_ok (query ImageProperty s)"
  by (simp_all add: Image_def ImageProperty_def)

lemma save_deleted_at:
  assumes "\<And>x. deleted_at (column_defaults cls x) = deleted_at x"
  shows "deleted_at (obj (save cls e now s)) = deleted_at e"
  using assms
  by (simp add: save_def flush_insert_def flush_update_def Let_def split: option.split)

lemma save_deleted:
  assumes "\<And>x. deleted (column_defaults cls x) = deleted x"
  shows "deleted (obj (save cls e now s)) = (if raised (save cls e now s) = None \<and> identity_key e = None \<and> deleted e = None then Some False else deleted e)"
  using assms
  by (simp add: save_def flush_insert_def flush_update_def Let_def split: option.split)

lemma save_length:
  assumes "\<And>tbl. query cls (store cls tbl s) = tbl"
  shows "length (query cls s) \<le> length (query cls (sess (save cls e now s)))"
  using assms
  by (simp add: save_def flush_insert_def flush_update_def Let_def split: option.split)

lemma save_other_rows:
  assumes "\<And>tbl. query cls (store cls tbl s) = tbl"
    and "x \<in> set (query cls s)" and "id' x \<noteq> identity_key e"
  shows "x \<in> set (query cls (sess (save cls e now s)))"
proof -
  have "x \<in> (\<lambda>r. if id' r = identity_key e then row else r) ` set (query cls s)" for row
    using assms(2,3) by (intro image_eqI [of _ _ x]) simp_all
  with assms show ?thesis
    by (simp add: save_def flush_insert_def flush_update_def Let_def split: option.split)
qed

lemma save_stored:
  assumes "\<And>tbl. query cls (store cls tbl s) = tbl"
    and "raised (save cls e now s) = None"
  shows "obj (save cls e now s) \<in> set (query cls (sess (save cls e now s)))"
proof (cases "identity_key e = None")
  case True
  with assms show ?thesis
    by (simp add: save_def flush_insert_def Let_def split: if_splits)
next
  case False
  then have sv: "save cls e now s = flush_update cls e now s"
    by (auto simp: save_def)
  show ?thesis
  proof (cases "find (\<lambda>r. id' r = identity_key e) (query cls s)")
    case None
    with assms(2) show ?thesis
      unfolding sv by (simp add: flush_update_def)
  next
    case (Some old)
    then have old: "old \<in> set (query cls s)" "id' old = identity_key e"
      by (auto simp: find_Some_iff)
    then have "row \<in> (\<lambda>r. if id' r = identity_key e then row else r) ` set (query cls s)" for row
      by (intro image_eqI [of _ _ old]) simp_all
    with Some old assms show ?thesis
      unfolding sv by (simp add: flush_update_def Let_def split: if_splits)
  qed
qed

lemma save_constraints:
  assumes "constraints cls s"
  shows "constraints cls (sess (save cls e now s))"
  using assms
  by (simp add: save_def flush_insert_def flush_update_def Let_def split: option.split)

lemma primary_key_same_row:
  assumes "primary_key_ok tbl" and "x \<in> set tbl" and "y \<in> set tbl" and "id' x = id' y"
  shows "x = y"
proof -
  from assms(1) have "inj_on id' (set tbl)"
    by (simp add: primary_key_ok_def distinct_map)
  with assms(2-4) show ?thesis
    by (meson inj_onD)
qed

lemma primary_key_not_null:
  assumes "primary_key_ok tbl" and "x \<in> set tbl"
  shows "id' x \<noteq> None"
proof
  assume "id' x = None"
  with assms(2) have "None \<in> id' ` set tbl"
    by (metis imageI)
  with assms(1) show False
    by (simp add: primary_key_ok_def)
qed

lemma find_own_row:
  assumes "primary_key_ok tbl" and "e \<in> set tbl"
  shows "find (\<lambda>r. id' r = id' e) tbl = Some e"
proof (cases "find (\<lambda>r. id' r = id' e) tbl")
  case None
  with assms(2) show ?thesis
    by (auto simp: find_None_iff)
next
  case (Some x)
  then have "x \<in> set tbl" and "id' x = id' e"
    by (auto simp: find_Some_iff)
  with assms have "x = e"
    using primary_key_same_row by blast
  with Some show ?thesis
    by simp
qed

lemma replace_row_map:
  assumes "primary_key_ok tbl" and "old \<in> set tbl" and "g row = g old"
  shows "map g (map (\<lambda>r. if id' r = id' old then row else r) tbl) = map g tbl"
proof -
  have "g (if id' r = id' old then row else r) = g r" if "r \<in> set tbl" for r
  proof (cases "id' r = id' old")
    case True
    with assms(1,2) that have "r = old"
      using primary_key_same_row by blast
    with assms(3) show ?thesis
      by simp
  next
    case False
    then show ?thesis
      by simp
  qed
  then show ?thesis
    by simp
qed

lemma primary_key_ok_map: "map id' tbl1 = map id' tbl2 \<Longrightarrow> primary_key_ok tbl1 = primary_key_ok tbl2"
  by (simp add: primary_key_ok_def)

lemma unique_image_id_key_map:
  assumes "map (\<lambda>p. (image_id p, key p)) tbl1 = map (\<lambda>p. (image_id p, key p)) tbl2"
  shows "unique_image_id_key tbl1 = unique_image_id_key tbl2"
proof -
  have "map (\<lambda>p. (image_id p, key p)) (filter (\<lambda>p. image_id p \<noteq> None \<and> key p \<noteq> None) tbl)
        = filter (\<lambda>(i, k). i \<noteq> None \<and> k \<noteq> None) (map (\<lambda>p. (image_id p, key p)) tbl)"
    for tbl :: "image_property list"
    by (induction tbl) auto
  with assms show ?thesis
    by (simp add: unique_image_id_key_def)
qed

lemma foreign_key_ok_map:
  assumes "foreign_keys s1 = foreign_keys s2"
    and "set (map id' (images s1)) = set (map id' (images s2))"
    and "map image_id (image_properties s1) = map image_id (image_properties s2)"
  shows "foreign_key_ok s1 = foreign_key_ok s2"
proof -
  have "list_all (\<lambda>p. image_id p = None \<or> image_id p \<in> ids) props
        = list_all (\<lambda>i. i = None \<or> i \<in> ids) (map image_id props)"
    for ids and props :: "image_property list"
    by (induction props) auto
  with assms show ?thesis
    by (simp add: foreign_key_ok_def)
qed

lemma image_update_constraints:
  assumes "constraints Image s" and "old \<in> set (images s)" and "id' row = id' old"
  shows "constraints Image
           (store Image (map (\<lambda>r. if id' r = id' old then row else r) (images s)) s)"
proof -
  from assms(1) have pk: "primary_key_ok (images s)" and fk: "foreign_key_ok s"
    by (simp_all add: Image_def)
  let ?tbl = "map (\<lambda>r. if id' r = id' old then row else r) (images s)"
  have ids: "map id' ?tbl = map id' (images s)"
    using pk assms(2,3) by (rule replace_row_map)
  then have "primary_key_ok ?tbl"
    using pk primary_key_ok_map by blast
  moreover have "foreign_key_ok (s\<lparr>images := ?tbl\<rparr>) = foreign_key_ok s"
    by (rule foreign_key_ok_map) (simp_all add: ids del: map_map)
  ultimately show ?thesis
    using fk by (simp add: Image_def)
qed

lemma property_update_constraints:
  assumes "constraints ImageProperty s" and "old \<in> set (image_properties s)"
    and "id' row = id' old" and "image_id row = image_id old" and "key row = key old"
  shows "constraints ImageProperty
           (store ImageProperty
              (map (\<lambda>r. if id' r = id' old then row else r) (image_properties s)) s)"
proof -
  from assms(1) have pk: "primary_key_ok (image_properties s)"
    and nn: "None \<notin> set (map image_id (image_properties s))"
    and un: "unique_image_id_key (image_properties s)"
    and fk: "foreign_key_ok s"
    by (simp_all add: ImageProperty_def)
  let ?tbl = "map (\<lambda>r. if id' r = id' old then row else r) (image_properties s)"
  have ids: "map id' ?tbl = map id' (image_properties s)"
    using pk assms(2,3) by (rule replace_row_map)
  have refs: "map image_id ?tbl = map image_id (image_properties s)"
    using pk assms(2,4) by (rule replace_row_map)
  have "(\<lambda>p. (image_id p, key p)) row = (\<lambda>p. (image_id p, key p)) old"
    using assms(4,5) by simp
  with pk assms(2) have pairs: "map (\<lambda>p. (image_id p, key p)) ?tbl
                 = map (\<lambda>p. (image_id p, key p)) (image_properties s)"
    by (rule replace_row_map)
  have "primary_key_ok ?tbl"
    using ids pk primary_key_ok_map by blast
  moreover have "None \<notin> set (map image_id ?tbl)"
    unfolding refs by (rule nn)
  moreover have "unique_image_id_key ?tbl"
    using pairs un unique_image_id_key_map by blast
  moreover have "foreign_key_ok (s\<lparr>image_properties := ?tbl\<rparr>) = foreign_key_ok s"
    by (rule foreign_key_ok_map) (simp_all add: refs del: map_map)
  ultimately show ?thesis
    using fk by (simp add: ImageProperty_def del: set_map map_map)
qed

text \<open>
  An object that has its row, with the key and (for a property) the constrained columns
  of that row: its flush raises nothing, whatever the other columns hold.
\<close>

lemma image_save_persisted:
  assumes "constraints Image s" and "old \<in> set (images s)"
    and "identity_key e = id' old" and "id' e = id' old"
  shows "raised (save Image e now s) = None"
proof -
  from assms(1) have pk: "primary_key_ok (images s)"
    by (simp add: Image_def)
  then have "id' old \<noteq> None"
    using assms(2) by (rule primary_key_not_null)
  with assms(3) have sv: "save Image e now s = flush_update Image e now s"
    by (auto simp: save_def)
  have f: "find (\<lambda>r. id' r = id' old) (images s) = Some old"
    using pk assms(2) by (rule find_own_row)
  have q: "query Image s = images s"
    by (simp add: Image_def)
  have "constraints Image (store Image (map (\<lambda>r. if id' r = id' old then row else r) (images s)) s)"
    if "id' row = id' old" for row
    using assms(1,2) that by (rule image_update_constraints)
  then show ?thesis
    unfolding sv flush_update_def q using assms(3,4) by (simp add: Let_def f)
qed

lemma property_save_persisted:
  assumes "constraints ImageProperty s" and "old \<in> set (image_properties s)"
    and "identity_key p = id' old" and "id' p = id' old"
    and "image_id p = image_id old" and "key p = key old"
  shows "raised (save ImageProperty p now s) = None"
proof -
  from assms(1) have pk: "primary_key_ok (image_properties s)"
    by (simp add: ImageProperty_def)
  then have "id' old \<noteq> None"
    using assms(2) by (rule primary_key_not_null)
  with assms(3) have sv: "save ImageProperty p now s = flush_update ImageProperty p now s"
    by (auto simp: save_def)
  have f: "find (\<lambda>r. id' r = id' old) (image_properties s) = Some old"
    using pk assms(2) by (rule find_own_row)
  have q: "query ImageProperty s = image_properties s"
    by (simp add: ImageProperty_def)
  have "constraints ImageProperty
          (store ImageProperty
             (map (\<lambda>r. if id' r = id' old then row else r) (image_properties s)) s)"
    if "id' row = id' old" and "image_id row = image_id old" and "key row = key old" for row
    using assms(1,2) that by (rule property_update_constraints)
  then show ?thesis
    unfolding sv flush_update_def q using assms(3-6) by (simp add: Let_def f)
qed

lemma excluded_when_deleted:
  assumes "primary_key_ok tbl" and "x \<in> set tbl" and "deleted x = Some True"
    and "y \<in> set (filter (\<lambda>e. deleted e = Some False) tbl)"
  shows "id' y \<noteq> id' x"
proof
  assume "id' y = id' x"
  moreover from assms(4) have "y \<in> set tbl" and "deleted y = Some False"
    by simp_all
  ultimately have "y = x"
    using assms(1,2) primary_key_same_row by blast
  with assms(3) \<open>deleted y = Some False\<close> show False
    by simp
qed

lemma delete_marks:
  assumes "\<And>x. deleted (column_defaults cls x) = deleted x"
    and "\<And>x. deleted_at (column_defaults cls x) = deleted_at x"
  shows "deleted (obj (delete cls e t now s)) = Some True"
    and "deleted_at (obj (delete cls e t now s)) = Some t"
  using assms by (simp_all add: delete_def save_deleted save_deleted_at)

lemma delete_excluded:
  assumes "\<And>x. deleted (column_defaults cls x) = deleted x"
    and "\<And>x. deleted_at (column_defaults cls x) = deleted_at x"
    and "\<And>tbl. query cls (store cls tbl s) = tbl"
    and "primary_key_ok (query cls (sess (delete cls e t now s)))"
    and "raised (delete cls e t now s) = None"
  shows "obj (delete cls e t now s) \<in> set (query cls (sess (delete cls e t now s)))"
    and "\<forall>x \<in> set (all' cls (sess (delete cls e t now s)) False).
           id' x \<noteq> id' (obj (delete cls e t now s))"
proof -
  show stored: "obj (delete cls e t now s) \<in> set (query cls (sess (delete cls e t now s)))"
    using assms(3,5) unfolding delete_def by (rule save_stored)
  have "deleted (obj (delete cls e t now s)) = Some True"
    using assms(1,2) by (rule delete_marks)
  with assms(4) stored
  show "\<forall>x \<in> set (all' cls (sess (delete cls e t now s)) False).
           id' x \<noteq> id' (obj (delete cls e t now s))"
    unfolding all'_def using excluded_when_deleted by blast
qed

text \<open>
  C2. For an image and for a property, \<^verbatim>\<open>delete()\<close> leaves the object with
  \<^verbatim>\<open>deleted\<close> true and \<^verbatim>\<open>deleted_at\<close> the clock reading, whatever \<^verbatim>\<open>save\<close> does; no
  row leaves the table (it never gets shorter and every other row stays); when
  \<^verbatim>\<open>save\<close> raises nothing, the object is a row of the table and no row returned by
  \<^verbatim>\<open>all()\<close>, nor counted by \<^verbatim>\<open>count()\<close>, with the default filter has its id; and for
  an object that is a row of a table satisfying its constraints \<^verbatim>\<open>save\<close> raises nothing.
\<close>

theorem delete_soft_deletes:
  fixes e :: image and p :: image_property
  shows
    "(let r = delete Image e t now s in
        deleted (obj r) = Some True \<and> deleted_at (obj r) = Some t
        \<and> length (images s) \<le> length (images (sess r))
        \<and> (\<forall>x \<in> set (images s). id' x \<noteq> identity_key e \<longrightarrow> x \<in> set (images (sess r)))
        \<and> (constraints Image s \<and> raised r = None \<longrightarrow>
              obj r \<in> set (images (sess r))
              \<and> (\<forall>x \<in> set (all' Image (sess r) False). id' x \<noteq> id' (obj r))
              \<and> count Image (sess r) False
                  = length (filter (\<lambda>x. id' x \<noteq> id' (obj r)) (all' Image (sess r) False)))
        \<and> (constraints Image s \<and> e \<in> set (images s) \<and> identity_key e = id' e \<longrightarrow>
              raised r = None))
     \<and> (let r = delete ImageProperty p t now s in
        deleted (obj r) = Some True \<and> deleted_at (obj r) = Some t
        \<and> length (image_properties s) \<le> length (image_properties (sess r))
        \<and> (\<forall>x \<in> set (image_properties s).
              id' x \<noteq> identity_key p \<longrightarrow> x \<in> set (image_properties (sess r)))
        \<and> (constraints ImageProperty s \<and> raised r = None \<longrightarrow>
              obj r \<in> set (image_properties (sess r))
              \<and> (\<forall>x \<in> set (all' ImageProperty (sess r) False). id' x \<noteq> id' (obj r))
              \<and> count ImageProperty (sess r) False
                  = length (filter (\<lambda>x. id' x \<noteq> id' (obj r))
                              (all' ImageProperty (sess r) False)))
        \<and> (constraints ImageProperty s \<and> p \<in> set (image_properties s)
              \<and> identity_key p = id' p \<longrightarrow> raised r = None))"
proof -
  have qi: "query Image s' = images s'" and qp: "query ImageProperty s' = image_properties s'"
    for s'
    by (simp_all add: Image_def ImageProperty_def)
  define r where "r = delete Image e t now s"
  define q where "q = delete ImageProperty p t now s"
  have r1: "deleted (obj r) = Some True \<and> deleted_at (obj r) = Some t"
    unfolding r_def by (simp add: delete_marks column_defaults_base)
  have q1: "deleted (obj q) = Some True \<and> deleted_at (obj q) = Some t"
    unfolding q_def by (simp add: delete_marks column_defaults_base)
  have "length (query Image s) \<le> length (query Image (sess r))"
    unfolding r_def delete_def by (rule save_length) (rule query_store)
  then have r2: "length (images s) \<le> length (images (sess r))"
    by (simp only: qi)
  have "length (query ImageProperty s) \<le> length (query ImageProperty (sess q))"
    unfolding q_def delete_def by (rule save_length) (rule query_store)
  then have q2: "length (image_properties s) \<le> length (image_properties (sess q))"
    by (simp only: qp)
  have "x \<in> set (query Image (sess r))"
    if "x \<in> set (query Image s)" and "id' x \<noteq> identity_key e" for x
    unfolding r_def delete_def using query_store(1) that(1)
    by (rule save_other_rows) (simp add: that(2))
  then have r3: "\<forall>x \<in> set (images s). id' x \<noteq> identity_key e \<longrightarrow> x \<in> set (images (sess r))"
    by (simp only: qi) blast
  have "x \<in> set (query ImageProperty (sess q))"
    if "x \<in> set (query ImageProperty s)" and "id' x \<noteq> identity_key p" for x
    unfolding q_def delete_def using query_store(2) that(1)
    by (rule save_other_rows) (simp add: that(2))
  then have q3: "\<forall>x \<in> set (image_properties s).
              id' x \<noteq> identity_key p \<longrightarrow> x \<in> set (image_properties (sess q))"
    by (simp only: qp) blast
  have r4: "obj r \<in> set (images (sess r))
              \<and> (\<forall>x \<in> set (all' Image (sess r) False). id' x \<noteq> id' (obj r))
              \<and> count Image (sess r) False
                  = length (filter (\<lambda>x. id' x \<noteq> id' (obj r)) (all' Image (sess r) False))"
    if "constraints Image s" and "raised r = None"
  proof -
    from that(1) have "constraints Image (sess r)"
      unfolding r_def delete_def by (rule save_constraints)
    then have pk: "primary_key_ok (query Image (sess r))"
      by (rule constraints_primary_key)
    have a: "obj r \<in> set (query Image (sess r))"
      and b: "\<forall>x \<in> set (all' Image (sess r) False). id' x \<noteq> id' (obj r)"
      using pk that(2) unfolding r_def
      by (rule delete_excluded [rotated 3]; simp add: column_defaults_base query_store)+
    from b have "filter (\<lambda>x. id' x \<noteq> id' (obj r)) (all' Image (sess r) False)
                 = all' Image (sess r) False"
      by simp
    with a b show ?thesis
      by (simp add: qi count_def all'_def)
  qed
  have q4: "obj q \<in> set (image_properties (sess q))
              \<and> (\<forall>x \<in> set (all' ImageProperty (sess q) False). id' x \<noteq> id' (obj q))
              \<and> count ImageProperty (sess q) False
                  = length (filter (\<lambda>x. id' x \<noteq> id' (obj q))
                              (all' ImageProperty (sess q) False))"
    if "constraints ImageProperty s" and "raised q = None"
  proof -
    from that(1) have "constraints ImageProperty (sess q)"
      unfolding q_def delete_def by (rule save_constraints)
    then have pk: "primary_key_ok (query ImageProperty (sess q))"
      by (rule constraints_primary_key)
    have a: "obj q \<in> set (query ImageProperty (sess q))"
      and b: "\<forall>x \<in> set (all' ImageProperty (sess q) False). id' x \<noteq> id' (obj q)"
      using pk that(2) unfolding q_def
      by (rule delete_excluded [rotated 3]; simp add: column_defaults_base query_store)+
    from b have "filter (\<lambda>x. id' x \<noteq> id' (obj q)) (all' ImageProperty (sess q) False)
                 = all' ImageProperty (sess q) False"
      by simp
    with a b show ?thesis
      by (simp add: qp count_def all'_def)
  qed
  have r5: "raised r = None"
    if "constraints Image s" and "e \<in> set (images s)" and "identity_key e = id' e"
    unfolding r_def delete_def using that(1,2)
    by (rule image_save_persisted) (simp_all add: that(3))
  have q5: "raised q = None"
    if "constraints ImageProperty s" and "p \<in> set (image_properties s)"
      and "identity_key p = id' p"
    unfolding q_def delete_def using that(1,2)
    by (rule property_save_persisted) (simp_all add: that(3))
  from r1 r2 r3 r4 r5 q1 q2 q3 q4 q5 show ?thesis
    unfolding r_def [symmetric] q_def [symmetric] Let_def by blast
qed

lemma delete_ubuntu:
  "delete Image ubuntu 200 201 example_session =
     \<lparr>obj = ubuntu\<lparr>updated_at := Some 201, deleted_at := Some 200, deleted := Some True\<rparr>,
      sess = example_session
        \<lparr>images := [ubuntu\<lparr>updated_at := Some 201, deleted_at := Some 200,
                            deleted := Some True\<rparr>, retired]\<rparr>,
      raised = None\<rparr>"
  by (simp add: delete_def save_def flush_update_def Image_def example_session_def ubuntu_def
      retired_def arch_def primary_key_ok_def foreign_key_ok_def Let_def)

lemma delete_arch:
  "delete ImageProperty arch 200 201 example_session =
     \<lparr>obj = arch\<lparr>updated_at := Some 201, deleted_at := Some 200, deleted := Some True\<rparr>,
      sess = example_session
        \<lparr>image_properties := [arch\<lparr>updated_at := Some 201, deleted_at := Some 200,
                                    deleted := Some True\<rparr>]\<rparr>,
      raised = None\<rparr>"
  by (simp add: delete_def save_def flush_update_def ImageProperty_def example_session_def
      ubuntu_def retired_def arch_def primary_key_ok_def foreign_key_ok_def
      unique_image_id_key_def Let_def)

lemma example_session_constraints:
  "constraints Image example_session" "constraints ImageProperty example_session"
  by (simp_all add: Image_def ImageProperty_def example_session_def ubuntu_def retired_def
      arch_def primary_key_ok_def foreign_key_ok_def unique_image_id_key_def)

theorem delete_soft_deletes_witness:
  "constraints Image example_session
   \<and> ubuntu \<in> set (images example_session) \<and> identity_key ubuntu = id' ubuntu
   \<and> raised (delete Image ubuntu 200 201 example_session) = None
   \<and> obj (delete Image ubuntu 200 201 example_session)
       = ubuntu\<lparr>updated_at := Some 201, deleted_at := Some 200, deleted := Some True\<rparr>
   \<and> images (sess (delete Image ubuntu 200 201 example_session))
       = [ubuntu\<lparr>updated_at := Some 201, deleted_at := Some 200, deleted := Some True\<rparr>,
          retired]
   \<and> all' Image (sess (delete Image ubuntu 200 201 example_session)) False = []
   \<and> count Image (sess (delete Image ubuntu 200 201 example_session)) False = 0
   \<and> constraints ImageProperty example_session
   \<and> arch \<in> set (image_properties example_session) \<and> identity_key arch = id' arch
   \<and> raised (delete ImageProperty arch 200 201 example_session) = None
   \<and> image_properties (sess (delete ImageProperty arch 200 201 example_session))
       = [arch\<lparr>updated_at := Some 201, deleted_at := Some 200, deleted := Some True\<rparr>]
   \<and> count ImageProperty (sess (delete ImageProperty arch 200 201 example_session)) False = 0"
proof -
  note c = example_session_constraints
  have u: "ubuntu \<in> set (images example_session)" "identity_key ubuntu = id' ubuntu"
    and a: "arch \<in> set (image_properties example_session)" "identity_key arch = id' arch"
    by (simp_all add: example_session_def ubuntu_def arch_def)
  note t = delete_soft_deletes [of ubuntu 200 201 example_session arch, unfolded Let_def]
  from t c u have ru: "raised (delete Image ubuntu 200 201 example_session) = None"
    by blast
  from t c a have ra: "raised (delete ImageProperty arch 200 201 example_session) = None"
    by blast
  have "all' Image (sess (delete Image ubuntu 200 201 example_session)) False = []"
    and "count Image (sess (delete Image ubuntu 200 201 example_session)) False = 0"
    and "count ImageProperty (sess (delete ImageProperty arch 200 201 example_session)) False = 0"
    unfolding delete_ubuntu delete_arch
    by (simp_all add: all'_def count_def Image_def ImageProperty_def example_session_def
        ubuntu_def retired_def arch_def)
  with c u a ru ra show ?thesis
    by (simp add: delete_ubuntu delete_arch)
qed




section \<open>\<^verbatim>\<open>updated_at\<close>\<close>

lemma save_refreshes_updated_at:
  assumes "find (\<lambda>r. id' r = identity_key x) (query cls s) = Some old"
    and "identity_key x \<noteq> None" and "x \<noteq> old" and "updated_at x = updated_at old"
    and "raised (save cls x now s) = None"
  shows "updated_at (obj (save cls x now s)) = Some now"
proof -
  from assms(2) have sv: "save cls x now s = flush_update cls x now s"
    by (auto simp: save_def)
  from assms(1,3,4) assms(5) [unfolded sv] show ?thesis
    unfolding sv by (simp add: flush_update_def Let_def split: if_splits)
qed

lemma update_keeps_field:
  assumes "\<And>x kv. kv \<in> set kvs \<Longrightarrow> f (fst (sa x kv)) = f x"
  shows "f (fst (update sa e kvs)) = f e"
  using assms
proof (induction kvs arbitrary: e)
  case Nil
  then show ?case by simp
next
  case (Cons kv kvs)
  obtain e1 x where r: "sa e kv = (e1, x)"
    by (cases "sa e kv")
  have "f (fst (sa e kv)) = f e"
    by (rule Cons.prems) simp
  with r have e1: "f e1 = f e"
    by simp
  show ?case
  proof (cases x)
    case None
    have "f (fst (update sa e1 kvs)) = f e1"
      by (rule Cons.IH) (simp add: Cons.prems)
    with r None e1 show ?thesis
      by (simp add: setitem_def)
  next
    case (Some err)
    with r e1 show ?thesis
      by (simp add: setitem_def)
  qed
qed

lemma setattr_image_updated_at:
  "\<forall>v. kv \<noteq> Updated_at v \<Longrightarrow> updated_at (fst (setattr_image e kv)) = updated_at e"
  by (cases kv) (simp_all split: sum.split)

lemma setattr_property_updated_at:
  "\<forall>v. kv \<noteq> P_updated_at v \<Longrightarrow> updated_at (fst (setattr_property p kv)) = updated_at p"
  by (cases kv) simp_all

lemma insert_keeps_updated_at:
  assumes "\<And>x. updated_at (column_defaults cls x) = updated_at x" and "identity_key e = None"
  shows "updated_at (obj (save cls e now s)) = updated_at e"
  using assms by (simp add: save_def flush_insert_def Let_def)

lemma save_unchanged:
  assumes "primary_key_ok (query cls s)" and "e \<in> set (query cls s)"
    and "identity_key e = id' e"
  shows "save cls e now s = \<lparr>obj = e, sess = s, raised = None\<rparr>"
proof -
  have "id' e \<noteq> None"
    using assms(1,2) by (rule primary_key_not_null)
  with assms(3) have sv: "save cls e now s = flush_update cls e now s"
    by (auto simp: save_def)
  have "find (\<lambda>r. id' r = id' e) (query cls s) = Some e"
    using assms(1,2) by (rule find_own_row)
  then show ?thesis
    unfolding sv by (simp add: flush_update_def assms(3))
qed

lemma save_keeps_assigned_updated_at:
  assumes "find (\<lambda>r. id' r = identity_key x) (query cls s) = Some old"
    and "identity_key x \<noteq> None" and "updated_at x \<noteq> updated_at old"
  shows "updated_at (obj (save cls x now s)) = updated_at x"
proof -
  from assms(2) have sv: "save cls x now s = flush_update cls x now s"
    by (auto simp: save_def)
  from assms(1,3) show ?thesis
    unfolding sv by (auto simp: flush_update_def Let_def)
qed

lemma column_defaults_updated_at:
  "updated_at (column_defaults Image e) = updated_at e"
  "updated_at (column_defaults ImageProperty p) = updated_at p"
  by (simp_all add: Image_def ImageProperty_def)

text \<open>
  C9, as stated, fails: \<^verbatim>\<open>update({"status": "disabled"})\<close> only assigns the attribute;
  \<^verbatim>\<open>updated_at\<close> is what it was before the call.
\<close>

theorem update_status_counterexample:
  "update setattr_image ubuntu [Status (Some ''disabled'')]
     = (ubuntu\<lparr>status := Some ''disabled''\<rparr>, None)
   \<and> updated_at ubuntu = Some 120
   \<and> updated_at (fst (update setattr_image ubuntu [Status (Some ''disabled'')])) = Some 120"
  by (simp add: setitem_def validate_status_def ubuntu_def)

text \<open>
  C9, amended. \<^verbatim>\<open>updated_at\<close> takes the clock reading when \<^verbatim>\<open>save()\<close> flushes the
  UPDATE of an object that has a row and differs from it, and keeps the value that the
  object assigned to \<^verbatim>\<open>updated_at\<close> itself, if it did. An assignment to another
  attribute, \<^verbatim>\<open>update(values)\<close> without \<^verbatim>\<open>updated_at\<close>, the first save (an INSERT) and a
  save with nothing changed leave \<^verbatim>\<open>updated_at\<close> as it is, for an image and for a
  property. In particular \<^verbatim>\<open>update({"status": "disabled"})\<close> on an image sets \<^verbatim>\<open>status\<close>
  to disabled and leaves \<^verbatim>\<open>updated_at\<close> as it was; saving the updated image (or a
  property with a new value), when it is a row of a table that satisfies its
  constraints, raises nothing and stores it with \<^verbatim>\<open>updated_at\<close> the clock reading of the
  flush.
\<close>

theorem updated_at_refreshed_on_flush:
  fixes e :: image and p :: image_property
  shows
    "update setattr_image e [Status (Some ''disabled'')] = (e\<lparr>status := Some ''disabled''\<rparr>, None)
     \<and> updated_at (fst (update setattr_image e [Status (Some ''disabled'')])) = updated_at e
     \<and> (constraints Image s \<and> e \<in> set (images s) \<and> identity_key e = id' e
          \<and> status e \<noteq> Some ''disabled'' \<longrightarrow>
          (let r = save Image (fst (update setattr_image e [Status (Some ''disabled'')])) now s in
             raised r = None \<and> status (obj r) = Some ''disabled''
             \<and> updated_at (obj r) = Some now \<and> obj r \<in> set (images (sess r))))
     \<and> (find (\<lambda>r. id' r = identity_key x) (query cls s) = Some old \<and> identity_key x \<noteq> None
          \<and> x \<noteq> old \<and> updated_at x = updated_at old \<and> raised (save cls x now s) = None \<longrightarrow>
          updated_at (obj (save cls x now s)) = Some now)
     \<and> (identity_key e = None \<longrightarrow> updated_at (obj (save Image e now s)) = updated_at e)
     \<and> (constraints Image s \<and> e \<in> set (images s) \<and> identity_key e = id' e \<longrightarrow>
          save Image e now s = \<lparr>obj = e, sess = s, raised = None\<rparr>)
     \<and> (find (\<lambda>r. id' r = identity_key x) (query cls s) = Some old \<and> identity_key x \<noteq> None
          \<and> updated_at x \<noteq> updated_at old \<longrightarrow>
          updated_at (obj (save cls x now s)) = updated_at x)
     \<and> ((\<forall>v. kv \<noteq> Updated_at v) \<longrightarrow>
          updated_at (fst (setattr_image e kv)) = updated_at e
          \<and> updated_at (fst (setitem setattr_image e kv)) = updated_at e)
     \<and> ((\<forall>v. Updated_at v \<notin> set kvs) \<longrightarrow>
          updated_at (fst (update setattr_image e kvs)) = updated_at e)
     \<and> ((\<forall>v. pkv \<noteq> P_updated_at v) \<longrightarrow>
          updated_at (fst (setattr_property p pkv)) = updated_at p
          \<and> updated_at (fst (setitem setattr_property p pkv)) = updated_at p)
     \<and> ((\<forall>v. P_updated_at v \<notin> set pkvs) \<longrightarrow>
          updated_at (fst (update setattr_property p pkvs)) = updated_at p)
     \<and> (identity_key p = None \<longrightarrow>
          updated_at (obj (save ImageProperty p now s)) = updated_at p)
     \<and> (constraints ImageProperty s \<and> p \<in> set (image_properties s)
          \<and> identity_key p = id' p \<longrightarrow>
          save ImageProperty p now s = \<lparr>obj = p, sess = s, raised = None\<rparr>)
     \<and> (constraints ImageProperty s \<and> p \<in> set (image_properties s)
          \<and> identity_key p = id' p \<and> value' p \<noteq> v1 \<longrightarrow>
          (let r = save ImageProperty (fst (update setattr_property p [P_value v1])) now s in
             raised r = None \<and> value' (obj r) = v1
             \<and> updated_at (obj r) = Some now \<and> obj r \<in> set (image_properties (sess r))))"
proof -
  have qi: "query Image s' = images s'" and qp: "query ImageProperty s' = image_properties s'"
    for s'
    by (simp_all add: Image_def ImageProperty_def)
  have u: "update setattr_image e [Status (Some ''disabled'')] = (e\<lparr>status := Some ''disabled''\<rparr>, None)"
    by (simp add: setitem_def validate_status_def)
  have up: "update setattr_property p [P_value v1] = (p\<lparr>value' := v1\<rparr>, None)"
    by (simp add: setitem_def)
  have own: "find (\<lambda>r. id' r = identity_key e) (query Image s) = Some e \<and> identity_key e \<noteq> None"
    if "constraints Image s" and "e \<in> set (images s)" and "identity_key e = id' e"
  proof -
    from that(1) have pk: "primary_key_ok (images s)"
      by (simp add: Image_def)
    with that(2,3) show ?thesis
      by (simp add: qi find_own_row primary_key_not_null)
  qed
  have ownp: "find (\<lambda>r. id' r = identity_key p) (query ImageProperty s) = Some p
              \<and> identity_key p \<noteq> None"
    if "constraints ImageProperty s" and "p \<in> set (image_properties s)"
      and "identity_key p = id' p"
  proof -
    from that(1) have pk: "primary_key_ok (image_properties s)"
      by (simp add: ImageProperty_def)
    with that(2,3) show ?thesis
      by (simp add: qp find_own_row primary_key_not_null)
  qed
  have a: "let r = save Image (fst (update setattr_image e [Status (Some ''disabled'')])) now s in
             raised r = None \<and> status (obj r) = Some ''disabled''
             \<and> updated_at (obj r) = Some now \<and> obj r \<in> set (images (sess r))"
    if h: "constraints Image s" "e \<in> set (images s)" "identity_key e = id' e"
      "status e \<noteq> Some ''disabled''"
  proof -
    let ?e = "e\<lparr>status := Some ''disabled''\<rparr>"
    have ok: "raised (save Image ?e now s) = None"
      using h(1,2) by (rule image_save_persisted) (simp_all add: h(3))
    have f: "find (\<lambda>r. id' r = identity_key ?e) (query Image s) = Some e"
      and n: "identity_key ?e \<noteq> None"
      using own [OF h(1-3)] by simp_all
    have d: "?e \<noteq> e"
    proof
      assume "?e = e"
      then have "status ?e = status e"
        by (rule arg_cong)
      with h(4) show False
        by simp
    qed
    have "updated_at (obj (save Image ?e now s)) = Some now"
      using f n d _ ok by (rule save_refreshes_updated_at) simp
    moreover have "obj (save Image ?e now s) \<in> set (query Image (sess (save Image ?e now s)))"
      using query_store(1) ok by (rule save_stored)
    moreover have "status (obj (save Image ?e now s)) = Some ''disabled''"
      using n by (auto simp: save_def flush_update_def Let_def split: option.split)
    ultimately show ?thesis
      using ok unfolding u fst_conv Let_def by (simp add: qi)
  qed
  have ap: "let r = save ImageProperty (fst (update setattr_property p [P_value v1])) now s in
             raised r = None \<and> value' (obj r) = v1
             \<and> updated_at (obj r) = Some now \<and> obj r \<in> set (image_properties (sess r))"
    if h: "constraints ImageProperty s" "p \<in> set (image_properties s)" "identity_key p = id' p"
      "value' p \<noteq> v1"
  proof -
    let ?p = "p\<lparr>value' := v1\<rparr>"
    have ok: "raised (save ImageProperty ?p now s) = None"
      using h(1,2) by (rule property_save_persisted) (simp_all add: h(3))
    have f: "find (\<lambda>r. id' r = identity_key ?p) (query ImageProperty s) = Some p"
      and n: "identity_key ?p \<noteq> None"
      using ownp [OF h(1-3)] by simp_all
    have d: "?p \<noteq> p"
    proof
      assume "?p = p"
      then have "value' ?p = value' p"
        by (rule arg_cong)
      with h(4) show False
        by simp
    qed
    have "updated_at (obj (save ImageProperty ?p now s)) = Some now"
      using f n d _ ok by (rule save_refreshes_updated_at) simp
    moreover have "obj (save ImageProperty ?p now s)
                     \<in> set (query ImageProperty (sess (save ImageProperty ?p now s)))"
      using query_store(2) ok by (rule save_stored)
    moreover have "value' (obj (save ImageProperty ?p now s)) = v1"
      using n by (auto simp: save_def flush_update_def Let_def split: option.split)
    ultimately show ?thesis
      using ok unfolding up fst_conv Let_def by (simp add: qp)
  qed
  have b: "updated_at (obj (save cls x now s)) = Some now"
    if "find (\<lambda>r. id' r = identity_key x) (query cls s) = Some old" and "identity_key x \<noteq> None"
      and "x \<noteq> old" and "updated_at x = updated_at old" and "raised (save cls x now s) = None"
    using that by (rule save_refreshes_updated_at)
  have b2: "updated_at (obj (save cls x now s)) = updated_at x"
    if "find (\<lambda>r. id' r = identity_key x) (query cls s) = Some old" and "identity_key x \<noteq> None"
      and "updated_at x \<noteq> updated_at old"
    using that by (rule save_keeps_assigned_updated_at)
  have c: "updated_at (obj (save Image e now s)) = updated_at e" if "identity_key e = None"
    using column_defaults_updated_at(1) that by (rule insert_keeps_updated_at)
  have cp: "updated_at (obj (save ImageProperty p now s)) = updated_at p"
    if "identity_key p = None"
    using column_defaults_updated_at(2) that by (rule insert_keeps_updated_at)
  have d: "save Image e now s = \<lparr>obj = e, sess = s, raised = None\<rparr>"
    if h: "constraints Image s" "e \<in> set (images s)" "identity_key e = id' e"
    using own [OF h] by (auto simp: save_def flush_update_def)
  have dp: "save ImageProperty p now s = \<lparr>obj = p, sess = s, raised = None\<rparr>"
    if h: "constraints ImageProperty s" "p \<in> set (image_properties s)" "identity_key p = id' p"
    using ownp [OF h] by (auto simp: save_def flush_update_def)
  have u2: "updated_at (fst (update setattr_image e [Status (Some ''disabled'')])) = updated_at e"
    unfolding u by simp
  have g: "updated_at (fst (setattr_image e kv)) = updated_at e
          \<and> updated_at (fst (setitem setattr_image e kv)) = updated_at e"
    if "\<forall>v. kv \<noteq> Updated_at v"
    using that by (simp add: setitem_def setattr_image_updated_at)
  have gp: "updated_at (fst (setattr_property p pkv)) = updated_at p
          \<and> updated_at (fst (setitem setattr_property p pkv)) = updated_at p"
    if "\<forall>v. pkv \<noteq> P_updated_at v"
    using that by (simp add: setitem_def setattr_property_updated_at)
  have k: "updated_at (fst (update setattr_image e kvs)) = updated_at e"
    if "\<forall>v. Updated_at v \<notin> set kvs"
  proof (rule update_keeps_field)
    fix x kv
    assume "kv \<in> set kvs"
    with that have "\<forall>v. kv \<noteq> Updated_at v"
      by blast
    then show "updated_at (fst (setattr_image x kv)) = updated_at x"
      by (rule setattr_image_updated_at)
  qed
  have kp: "updated_at (fst (update setattr_property p pkvs)) = updated_at p"
    if "\<forall>v. P_updated_at v \<notin> set pkvs"
  proof (rule update_keeps_field)
    fix x kv
    assume "kv \<in> set pkvs"
    with that have "\<forall>v. kv \<noteq> P_updated_at v"
      by blast
    then show "updated_at (fst (setattr_property x kv)) = updated_at x"
      by (rule setattr_property_updated_at)
  qed
  have c3: "constraints Image s \<and> e \<in> set (images s) \<and> identity_key e = id' e
          \<and> status e \<noteq> Some ''disabled'' \<longrightarrow>
          (let r = save Image (fst (update setattr_image e [Status (Some ''disabled'')])) now s in
             raised r = None \<and> status (obj r) = Some ''disabled''
             \<and> updated_at (obj r) = Some now \<and> obj r \<in> set (images (sess r)))"
    using a by blast
  have c4: "find (\<lambda>r. id' r = identity_key x) (query cls s) = Some old \<and> identity_key x \<noteq> None
          \<and> x \<noteq> old \<and> updated_at x = updated_at old \<and> raised (save cls x now s) = None \<longrightarrow>
          updated_at (obj (save cls x now s)) = Some now"
    using b by blast
  have c5: "identity_key e = None \<longrightarrow> updated_at (obj (save Image e now s)) = updated_at e"
    using c by blast
  have c6: "constraints Image s \<and> e \<in> set (images s) \<and> identity_key e = id' e \<longrightarrow>
          save Image e now s = \<lparr>obj = e, sess = s, raised = None\<rparr>"
    using d by blast
  have c7: "find (\<lambda>r. id' r = identity_key x) (query cls s) = Some old \<and> identity_key x \<noteq> None
          \<and> updated_at x \<noteq> updated_at old \<longrightarrow>
          updated_at (obj (save cls x now s)) = updated_at x"
    using b2 by blast
  have c8: "(\<forall>v. kv \<noteq> Updated_at v) \<longrightarrow>
          updated_at (fst (setattr_image e kv)) = updated_at e
          \<and> updated_at (fst (setitem setattr_image e kv)) = updated_at e"
    using g by blast
  have c9: "(\<forall>v. Updated_at v \<notin> set kvs) \<longrightarrow>
          updated_at (fst (update setattr_image e kvs)) = updated_at e"
    using k by blast
  have c10: "(\<forall>v. pkv \<noteq> P_updated_at v) \<longrightarrow>
          updated_at (fst (setattr_property p pkv)) = updated_at p
          \<and> updated_at (fst (setitem setattr_property p pkv)) = updated_at p"
    using gp by blast
  have c11: "(\<forall>v. P_updated_at v \<notin> set pkvs) \<longrightarrow>
          updated_at (fst (update setattr_property p pkvs)) = updated_at p"
    using kp by blast
  have c12: "identity_key p = None \<longrightarrow>
          updated_at (obj (save ImageProperty p now s)) = updated_at p"
    using cp by blast
  have c13: "constraints ImageProperty s \<and> p \<in> set (image_properties s)
          \<and> identity_key p = id' p \<longrightarrow>
          save ImageProperty p now s = \<lparr>obj = p, sess = s, raised = None\<rparr>"
    using dp by blast
  have c14: "constraints ImageProperty s \<and> p \<in> set (image_properties s)
          \<and> identity_key p = id' p \<and> value' p \<noteq> v1 \<longrightarrow>
          (let r = save ImageProperty (fst (update setattr_property p [P_value v1])) now s in
             raised r = None \<and> value' (obj r) = v1
             \<and> updated_at (obj r) = Some now \<and> obj r \<in> set (image_properties (sess r)))"
    using ap by blast
  show ?thesis
    by (intro conjI) (fact u u2 c3 c4 c5 c6 c7 c8 c9 c10 c11 c12 c13 c14)+
qed

theorem updated_at_refreshed_on_flush_witness:
  "constraints Image example_session \<and> ubuntu \<in> set (images example_session)
   \<and> identity_key ubuntu = id' ubuntu \<and> status ubuntu \<noteq> Some ''disabled''
   \<and> fst (update setattr_image ubuntu [Status (Some ''disabled'')])
       = ubuntu\<lparr>status := Some ''disabled''\<rparr>
   \<and> raised (save Image (ubuntu\<lparr>status := Some ''disabled''\<rparr>) 300 example_session) = None
   \<and> updated_at (obj (save Image (ubuntu\<lparr>status := Some ''disabled''\<rparr>) 300 example_session))
       = Some 300
   \<and> save Image ubuntu 300 example_session = \<lparr>obj = ubuntu, sess = example_session, raised = None\<rparr>
   \<and> identity_key blank_image = None
   \<and> updated_at (obj (save Image blank_image 300 example_session)) = None
   \<and> find (\<lambda>r. id' r = identity_key (ubuntu\<lparr>status := Some ''disabled''\<rparr>))
         (query Image example_session) = Some ubuntu
   \<and> identity_key (ubuntu\<lparr>status := Some ''disabled''\<rparr>) = Some 1
   \<and> ubuntu\<lparr>status := Some ''disabled''\<rparr> \<noteq> ubuntu
   \<and> updated_at (ubuntu\<lparr>status := Some ''disabled''\<rparr>) = updated_at ubuntu
   \<and> updated_at ubuntu = Some 120
   \<and> updated_at (fst (setattr_image ubuntu (Name None))) = Some 120
   \<and> updated_at (fst (update setattr_image ubuntu [Name None, Status (Some ''disabled'')]))
       = Some 120
   \<and> updated_at arch = None
   \<and> updated_at (fst (setattr_property arch (P_value (Some ''i386'')))) = None
   \<and> updated_at (fst (update setattr_property arch [P_value (Some ''i386'')])) = None
   \<and> identity_key unkeyed = None
   \<and> updated_at (obj (save ImageProperty unkeyed 300 example_session)) = None
   \<and> constraints ImageProperty example_session
   \<and> arch \<in> set (image_properties example_session) \<and> identity_key arch = id' arch
   \<and> save ImageProperty arch 300 example_session
       = \<lparr>obj = arch, sess = example_session, raised = None\<rparr>
   \<and> value' arch \<noteq> Some ''i386''
   \<and> updated_at (obj (save ImageProperty (arch\<lparr>value' := Some ''i386''\<rparr>) 300 example_session))
       = Some 300
   \<and> find (\<lambda>r. id' r = identity_key (ubuntu\<lparr>updated_at := Some 7\<rparr>))
         (query Image example_session) = Some ubuntu
   \<and> updated_at (obj (save Image (ubuntu\<lparr>updated_at := Some 7\<rparr>) 300 example_session)) = Some 7"
proof -
  have c: "constraints Image example_session" and cp: "constraints ImageProperty example_session"
    by (rule example_session_constraints)+
  have m: "ubuntu \<in> set (images example_session)" "identity_key ubuntu = id' ubuntu"
    "status ubuntu \<noteq> Some ''disabled''" "updated_at ubuntu = Some 120"
    and mp: "arch \<in> set (image_properties example_session)" "identity_key arch = id' arch"
    "value' arch \<noteq> Some ''i386''" "updated_at arch = None"
    by (simp_all add: example_session_def ubuntu_def arch_def)
  note t = updated_at_refreshed_on_flush
    [where e = ubuntu and s = example_session and now = 300
       and x = "ubuntu\<lparr>updated_at := Some 7\<rparr>" and cls = Image and old = ubuntu
       and kv = "Name None" and kvs = "[Name None, Status (Some ''disabled'')]"
       and p = arch and pkv = "P_value (Some ''i386'')" and pkvs = "[P_value (Some ''i386'')]"
       and ?v1.0 = "Some ''i386''", unfolded Let_def]
  from t have u: "update setattr_image ubuntu [Status (Some ''disabled'')]
                  = (ubuntu\<lparr>status := Some ''disabled''\<rparr>, None)"
    by blast
  have up: "update setattr_property arch [P_value (Some ''i386'')]
            = (arch\<lparr>value' := Some ''i386''\<rparr>, None)"
    by (simp add: setitem_def)
  from t c m have "raised (save Image (fst (update setattr_image ubuntu [Status (Some ''disabled'')])) 300 example_session) = None
      \<and> updated_at (obj (save Image (fst (update setattr_image ubuntu [Status (Some ''disabled'')])) 300 example_session)) = Some 300"
    by blast
  then have r: "raised (save Image (ubuntu\<lparr>status := Some ''disabled''\<rparr>) 300 example_session) = None
      \<and> updated_at (obj (save Image (ubuntu\<lparr>status := Some ''disabled''\<rparr>) 300 example_session)) = Some 300"
    by (simp only: u fst_conv)
  from t c m have n: "save Image ubuntu 300 example_session
                      = \<lparr>obj = ubuntu, sess = example_session, raised = None\<rparr>"
    by blast
  from t cp mp have np: "save ImageProperty arch 300 example_session
                      = \<lparr>obj = arch, sess = example_session, raised = None\<rparr>"
    by blast
  from t cp mp have "updated_at (obj (save ImageProperty (fst (update setattr_property arch [P_value (Some ''i386'')])) 300 example_session)) = Some 300"
    by blast
  then have rp: "updated_at (obj (save ImageProperty (arch\<lparr>value' := Some ''i386''\<rparr>) 300 example_session)) = Some 300"
    by (simp only: up fst_conv)
  have nv: "\<forall>v. Name None \<noteq> Updated_at v"
    "\<forall>v. Updated_at v \<notin> set [Name None, Status (Some ''disabled'')]"
    "\<forall>v. P_value (Some ''i386'') \<noteq> P_updated_at v"
    "\<forall>v. P_updated_at v \<notin> set [P_value (Some ''i386'')]"
    by simp_all
  from t nv(1) have a1: "updated_at (fst (setattr_image ubuntu (Name None))) = updated_at ubuntu"
    by blast
  from t nv(2) have a2: "updated_at (fst (update setattr_image ubuntu [Name None, Status (Some ''disabled'')])) = updated_at ubuntu"
    by blast
  from t nv(3) have a3: "updated_at (fst (setattr_property arch (P_value (Some ''i386'')))) = updated_at arch"
    by blast
  from t nv(4) have a4: "updated_at (fst (update setattr_property arch [P_value (Some ''i386'')])) = updated_at arch"
    by blast
  have g7: "find (\<lambda>r. id' r = identity_key (ubuntu\<lparr>updated_at := Some 7\<rparr>))
             (query Image example_session) = Some ubuntu"
    "identity_key (ubuntu\<lparr>updated_at := Some 7\<rparr>) \<noteq> None"
    "updated_at (ubuntu\<lparr>updated_at := Some 7\<rparr>) \<noteq> updated_at ubuntu"
    by (simp_all add: Image_def example_session_def ubuntu_def retired_def)
  with t have "updated_at (obj (save Image (ubuntu\<lparr>updated_at := Some 7\<rparr>) 300 example_session))
               = updated_at (ubuntu\<lparr>updated_at := Some 7\<rparr>)"
    by blast
  then have a7: "updated_at (obj (save Image (ubuntu\<lparr>updated_at := Some 7\<rparr>) 300 example_session)) = Some 7"
    by simp
  note t' = updated_at_refreshed_on_flush
    [where e = blank_image and s = example_session and now = 300 and p = unkeyed]
  have b: "identity_key blank_image = None" "updated_at blank_image = None"
    "identity_key unkeyed = None" "updated_at unkeyed = None"
    by (simp_all add: blank_image_def unkeyed_def)
  from t' b(1) have "updated_at (obj (save Image blank_image 300 example_session))
                     = updated_at blank_image"
    by blast
  then have i: "updated_at (obj (save Image blank_image 300 example_session)) = None"
    by (simp only: b)
  from t' b(3) have "updated_at (obj (save ImageProperty unkeyed 300 example_session))
                     = updated_at unkeyed"
    by blast
  then have ip: "updated_at (obj (save ImageProperty unkeyed 300 example_session)) = None"
    by (simp only: b)
  have g: "find (\<lambda>r. id' r = identity_key (ubuntu\<lparr>status := Some ''disabled''\<rparr>))
             (query Image example_session) = Some ubuntu"
    "identity_key (ubuntu\<lparr>status := Some ''disabled''\<rparr>) = Some 1"
    "ubuntu\<lparr>status := Some ''disabled''\<rparr> \<noteq> ubuntu"
    "updated_at (ubuntu\<lparr>status := Some ''disabled''\<rparr>) = updated_at ubuntu"
    by (simp_all add: Image_def example_session_def ubuntu_def retired_def)
  have f: "fst (update setattr_image ubuntu [Status (Some ''disabled'')])
           = ubuntu\<lparr>status := Some ''disabled''\<rparr>"
    by (simp only: u fst_conv)
  from a1 a2 a3 a4 have a': "updated_at (fst (setattr_image ubuntu (Name None))) = Some 120"
    "updated_at (fst (update setattr_image ubuntu [Name None, Status (Some ''disabled'')])) = Some 120"
    "updated_at (fst (setattr_property arch (P_value (Some ''i386'')))) = None"
    "updated_at (fst (update setattr_property arch [P_value (Some ''i386'')])) = None"
    by (simp_all only: m mp)
  show ?thesis
    by (intro conjI) (fact c cp m mp f r [THEN conjunct1] r [THEN conjunct2] n np rp b i ip g a' g7 a7)+
qed

section \<open>The unique constraint on \<^verbatim>\<open>(image_id, key)\<close>\<close>

lemma property_class:
  "query ImageProperty s = image_properties s"
  "store ImageProperty tbl s = s\<lparr>image_properties := tbl\<rparr>"
  "column_defaults ImageProperty p = p"
  by (simp_all add: ImageProperty_def)

lemma unique_pairs_same_row:
  assumes "None \<notin> set (map image_id tbl)" and "unique_image_id_key tbl"
    and "x \<in> set tbl" and "y \<in> set tbl"
    and "image_id x = image_id y" and "key x = key y" and "key x \<noteq> None"
  shows "x = y"
proof -
  let ?rows = "filter (\<lambda>p. image_id p \<noteq> None \<and> key p \<noteq> None) tbl"
  have "image_id z \<noteq> None" if "z \<in> set tbl" for z
  proof
    assume "image_id z = None"
    with that have "None \<in> image_id ` set tbl"
      by (metis imageI)
    with assms(1) show False
      by simp
  qed
  with assms(3-7) have "x \<in> set ?rows" and "y \<in> set ?rows"
    by simp_all
  moreover from assms(2) have "inj_on (\<lambda>p. (image_id p, key p)) (set ?rows)"
    by (simp add: unique_image_id_key_def distinct_map)
  moreover have "(\<lambda>p. (image_id p, key p)) x = (\<lambda>p. (image_id p, key p)) y"
    using assms(5,6) by simp
  ultimately show ?thesis
    by (meson inj_onD)
qed

lemma property_constraints_same_row:
  assumes "constraints ImageProperty s"
    and "x \<in> set (image_properties s)" and "y \<in> set (image_properties s)"
    and "image_id x = image_id y" and "key x = key y" and "key x \<noteq> None"
  shows "x = y"
proof -
  from assms(1) have "None \<notin> set (map image_id (image_properties s))"
    and "unique_image_id_key (image_properties s)"
    by (simp_all add: ImageProperty_def)
  then show ?thesis
    using assms(2-6) by (rule unique_pairs_same_row)
qed

lemma insert_duplicate_rejected:
  fixes p :: image_property
  assumes "x \<in> set (image_properties s)" and "image_id x = image_id p" and "key x = key p"
    and "key p \<noteq> None" and "identity_key p = None"
  shows "save ImageProperty p now s = \<lparr>obj = p, sess = s, raised = Some IntegrityError\<rparr>"
proof -
  define row where "row =
    p\<lparr>created_at := (case created_at p of None \<Rightarrow> Some now | Some t \<Rightarrow> Some t),
      deleted := (case deleted p of None \<Rightarrow> Some False | Some b \<Rightarrow> Some b),
      id' := (case id' p of None \<Rightarrow> Some (next_id (image_properties s)) | Some i \<Rightarrow> Some i),
      identity_key := (case id' p of None \<Rightarrow> Some (next_id (image_properties s)) | Some i \<Rightarrow> Some i)\<rparr>"
  have sv: "save ImageProperty p now s =
              (if constraints ImageProperty (s\<lparr>image_properties := image_properties s @ [row]\<rparr>)
               then \<lparr>obj = row, sess = s\<lparr>image_properties := image_properties s @ [row]\<rparr>,
                      raised = None\<rparr>
               else \<lparr>obj = p, sess = s, raised = Some IntegrityError\<rparr>)"
    using assms(5) by (simp add: save_def flush_insert_def Let_def row_def property_class)
  have "\<not> constraints ImageProperty (s\<lparr>image_properties := image_properties s @ [row]\<rparr>)"
  proof
    assume c: "constraints ImageProperty (s\<lparr>image_properties := image_properties s @ [row]\<rparr>)"
    have "x = row"
      using c
    proof (rule property_constraints_same_row)
      show "image_id x = image_id row" "key x = key row" "key x \<noteq> None"
        using assms(2-4) by (simp_all add: row_def)
    qed (simp_all add: assms(1))
    with assms(1) have "id' row \<in> set (map id' (image_properties s))"
      by (metis imageI set_map)
    moreover from c have "distinct (map id' (image_properties s @ [row]))"
      by (simp add: ImageProperty_def primary_key_ok_def)
    ultimately show False
      by simp
  qed
  with sv show ?thesis
    by simp
qed

lemma save_duplicate_rejected:
  fixes p :: image_property
  assumes c: "constraints ImageProperty s"
    and x: "x \<in> set (image_properties s)" "id' x \<noteq> identity_key p"
    and same: "image_id x = image_id p" "key x = key p" "key p \<noteq> None"
  shows "raised (save ImageProperty p now s) \<noteq> None \<and> sess (save ImageProperty p now s) = s"
proof (cases "identity_key p = None")
  case True
  with x(1) same show ?thesis
    by (simp add: insert_duplicate_rejected)
next
  case False
  then have sv: "save ImageProperty p now s = flush_update ImageProperty p now s"
    by (auto simp: save_def)
  have q: "query ImageProperty s = image_properties s"
    by (simp add: ImageProperty_def)
  show ?thesis
  proof (cases "find (\<lambda>r. id' r = identity_key p) (image_properties s)")
    case None
    then show ?thesis
      unfolding sv by (simp add: flush_update_def q)
  next
    case (Some old)
    then have old: "old \<in> set (image_properties s)" "id' old = identity_key p"
      by (auto simp: find_Some_iff)
    have differ: "p \<noteq> old"
    proof
      assume "p = old"
      with c x(1) old(1) same have "x = old"
        by (intro property_constraints_same_row [of s x old]) simp_all
      with x(2) old(2) show False
        by simp
    qed
    define row where "row =
      p\<lparr>updated_at := (if updated_at p = updated_at old then Some now else updated_at p),
        identity_key := id' p\<rparr>"
    define f where "f = (\<lambda>r. if id' r = identity_key p then row else r)"
    have "flush_update ImageProperty p now s =
            (let row' = p\<lparr>updated_at :=
                            (if updated_at p = updated_at old then Some now else updated_at p),
                          identity_key := id' p\<rparr>;
                 s' = store ImageProperty
                        (map (\<lambda>r. if id' r = identity_key p then row' else r)
                           (query ImageProperty s)) s
             in if constraints ImageProperty s'
                then \<lparr>obj = row', sess = s', raised = None\<rparr>
                else \<lparr>obj = p, sess = s, raised = Some IntegrityError\<rparr>)"
      unfolding flush_update_def q using Some differ by (simp only: Let_def option.case if_False)
    then have fl: "flush_update ImageProperty p now s =
                (if constraints ImageProperty (s\<lparr>image_properties := map f (image_properties s)\<rparr>)
                 then \<lparr>obj = row, sess = s\<lparr>image_properties := map f (image_properties s)\<rparr>,
                        raised = None\<rparr>
                 else \<lparr>obj = p, sess = s, raised = Some IntegrityError\<rparr>)"
      unfolding row_def [symmetric] Let_def f_def [symmetric] property_class .
    have "\<not> constraints ImageProperty (s\<lparr>image_properties := map f (image_properties s)\<rparr>)"
    proof
      assume c': "constraints ImageProperty (s\<lparr>image_properties := map f (image_properties s)\<rparr>)"
      have fx: "f x = x" and fo: "f old = row"
        using x(2) old(2) by (simp_all add: f_def)
      have "f x \<in> f ` set (image_properties s)" and "f old \<in> f ` set (image_properties s)"
        using x(1) old(1) by simp_all
      then have mem: "x \<in> set (map f (image_properties s))" "row \<in> set (map f (image_properties s))"
        by (simp_all add: fx fo)
      have "x = row"
        using c'
      proof (rule property_constraints_same_row)
        show "image_id x = image_id row" "key x = key row" "key x \<noteq> None"
          using same by (simp_all add: row_def)
      qed (simp_all add: mem del: set_map)
      with fx have "f x = row"
        by (rule trans)
      then have "f x = f old"
        using fo [symmetric] by (rule trans)
      then have "(id' \<circ> f) x = (id' \<circ> f) old"
        by (simp only: comp_apply)
      moreover have "inj_on (id' \<circ> f) (set (image_properties s))"
      proof -
        from c' have "primary_key_ok (map f (image_properties s))"
          by (simp add: ImageProperty_def)
        then have "distinct (map id' (map f (image_properties s)))"
          unfolding primary_key_ok_def by (rule conjunct2)
        then have "distinct (map (id' \<circ> f) (image_properties s))"
          by (simp only: map_map)
        then show ?thesis
          unfolding distinct_map by (rule conjunct2)
      qed
      ultimately have "x = old"
        using x(1) old(1) by (meson inj_onD)
      with x(2) old(2) show False
        by simp
    qed
    with fl show ?thesis
      unfolding sv by simp
  qed
qed

text \<open>
  C10, as stated, fails: the key column is nullable and a unique constraint never matches
  a null, so two properties of the same image without a key are both saved.
\<close>

theorem null_key_duplicate_counterexample:
  "raised (save ImageProperty unkeyed 130 example_session) = None
   \<and> raised (save ImageProperty unkeyed 131
               (sess (save ImageProperty unkeyed 130 example_session))) = None
   \<and> map (\<lambda>p. (image_id p, key p))
        (image_properties
           (sess (save ImageProperty unkeyed 131
                    (sess (save ImageProperty unkeyed 130 example_session)))))
       = [(Some 1, Some ''arch''), (Some 1, None), (Some 1, None)]"
proof -
  have first: "save ImageProperty unkeyed 130 example_session =
      \<lparr>obj = unkeyed\<lparr>id' := Some 2, created_at := Some 130, deleted := Some False,
                      identity_key := Some 2\<rparr>,
       sess = example_session
         \<lparr>image_properties :=
            [arch, unkeyed\<lparr>id' := Some 2, created_at := Some 130, deleted := Some False,
                           identity_key := Some 2\<rparr>]\<rparr>,
       raised = None\<rparr>"
    by (simp add: save_def flush_insert_def ImageProperty_def example_session_def unkeyed_def
        arch_def ubuntu_def retired_def next_id_def primary_key_ok_def foreign_key_ok_def
        unique_image_id_key_def Let_def)
  show ?thesis
    unfolding first
    by (simp add: save_def flush_insert_def ImageProperty_def example_session_def unkeyed_def
        arch_def ubuntu_def retired_def next_id_def primary_key_ok_def foreign_key_ok_def
        unique_image_id_key_def Let_def)
qed

text \<open>
  C10, amended. Two property rows with the same \<^verbatim>\<open>image_id\<close> and the same non-null
  \<^verbatim>\<open>key\<close> can never both be saved: the save of a new property that repeats the pair of a
  stored row raises the store's \<^verbatim>\<open>IntegrityError\<close> and stores nothing, the save of any
  property that would repeat the pair of another row raises and stores nothing, every
  save keeps the table's constraints, and under them two rows that agree on
  \<^verbatim>\<open>image_id\<close> and on a non-null \<^verbatim>\<open>key\<close> are the same row.
\<close>

theorem duplicate_image_id_key_rejected:
  fixes p :: image_property
  shows
    "(x \<in> set (image_properties s) \<and> image_id x = image_id p \<and> key x = key p
        \<and> key p \<noteq> None \<and> identity_key p = None \<longrightarrow>
        save ImageProperty p now s = \<lparr>obj = p, sess = s, raised = Some IntegrityError\<rparr>)
     \<and> (constraints ImageProperty s \<and> x \<in> set (image_properties s) \<and> id' x \<noteq> identity_key p
        \<and> image_id x = image_id p \<and> key x = key p \<and> key p \<noteq> None \<longrightarrow>
        raised (save ImageProperty p now s) \<noteq> None \<and> sess (save ImageProperty p now s) = s)
     \<and> (constraints ImageProperty s \<longrightarrow>
        constraints ImageProperty (sess (save ImageProperty p now s)))
     \<and> (constraints ImageProperty s \<and> x \<in> set (image_properties s)
        \<and> y \<in> set (image_properties s) \<and> image_id x = image_id y \<and> key x = key y
        \<and> key x \<noteq> None \<longrightarrow> x = y)"
  using insert_duplicate_rejected [of x s p now] save_duplicate_rejected [of s x p now]
    save_constraints [of ImageProperty s p now] property_constraints_same_row [of s x y]
  by blast

theorem duplicate_image_id_key_rejected_witness:
  "arch \<in> set (image_properties example_session)
   \<and> image_id arch = image_id (unkeyed\<lparr>key := Some ''arch''\<rparr>)
   \<and> key arch = key (unkeyed\<lparr>key := Some ''arch''\<rparr>)
   \<and> key (unkeyed\<lparr>key := Some ''arch''\<rparr>) = Some ''arch''
   \<and> identity_key (unkeyed\<lparr>key := Some ''arch''\<rparr>) = None
   \<and> id' arch = Some 1
   \<and> constraints ImageProperty example_session
   \<and> save ImageProperty (unkeyed\<lparr>key := Some ''arch''\<rparr>) 130 example_session
       = \<lparr>obj = unkeyed\<lparr>key := Some ''arch''\<rparr>, sess = example_session,
          raised = Some IntegrityError\<rparr>
   \<and> raised (save ImageProperty (unkeyed\<lparr>key := Some ''kernel''\<rparr>) 130 example_session) = None
   \<and> constraints ImageProperty
        (sess (save ImageProperty (unkeyed\<lparr>key := Some ''kernel''\<rparr>) 130 example_session))"
proof -
  have a: "arch \<in> set (image_properties example_session)"
    "image_id arch = image_id (unkeyed\<lparr>key := Some ''arch''\<rparr>)"
    "key arch = key (unkeyed\<lparr>key := Some ''arch''\<rparr>)"
    "key (unkeyed\<lparr>key := Some ''arch''\<rparr>) = Some ''arch''"
    "identity_key (unkeyed\<lparr>key := Some ''arch''\<rparr>) = None"
    by (simp_all add: example_session_def arch_def unkeyed_def)
  have c: "constraints ImageProperty example_session"
    by (rule example_session_constraints)
  from a have n: "key (unkeyed\<lparr>key := Some ''arch''\<rparr>) \<noteq> None"
    by simp
  from duplicate_image_id_key_rejected
    [of arch example_session "unkeyed\<lparr>key := Some ''arch''\<rparr>" 130 arch] a(1,2,3,5) n
  have r: "save ImageProperty (unkeyed\<lparr>key := Some ''arch''\<rparr>) 130 example_session
       = \<lparr>obj = unkeyed\<lparr>key := Some ''arch''\<rparr>, sess = example_session,
          raised = Some IntegrityError\<rparr>"
    by blast
  have k: "raised (save ImageProperty (unkeyed\<lparr>key := Some ''kernel''\<rparr>) 130 example_session) = None"
    by code_simp
  from duplicate_image_id_key_rejected
    [of arch example_session "unkeyed\<lparr>key := Some ''kernel''\<rparr>" 130 arch] c
  have i: "constraints ImageProperty
        (sess (save ImageProperty (unkeyed\<lparr>key := Some ''kernel''\<rparr>) 130 example_session))"
    by blast
  have j: "id' arch = Some 1"
    by (simp add: arch_def)
  from a c r k i j show ?thesis
    by blast
qed

end
